theory Spec2Isabelle
  imports Complex_Main "HOL-Library.Signed_Division"
begin

section \<open>Conventions of the embedding\<close>

text \<open>
  The development embeds \<^verbatim>\<open>ascent_blueprint_architect.cpp\<close> (namespace
  \<^verbatim>\<open>ascent::runtime::expressions\<close>) as built without \<^verbatim>\<open>ASCENT_MPI_ENABLED\<close>
  and without OpenMP: one worker, sequential loops. Two functions are modelled beyond
  that: \<^verbatim>\<open>field_assoc\<close>, whose two votes are taken over a list of workers, and
  \<^verbatim>\<open>field_histogram\<close>, which takes the build as an argument because its MPI block changes the
  result on a single rank already. In the other reductions the MPI block on one rank
  returns what the serial build returns.

  \<^item> A \<^verbatim>\<open>double\<close> (and a \<^verbatim>\<open>float\<close> widened to \<^verbatim>\<open>double\<close>) is a \<open>real\<close>: rounding is
    not modelled. A floating-point operation whose IEEE result is NaN or an infinity
    (a division by zero, the logarithm of a negative number) has no real value; the
    model returns \<open>Inl NonFinite\<close> there.
  \<^item> A C \<^verbatim>\<open>int\<close> is an \<open>int\<close> together with the 32-bit range check: signed overflow and
    integer division by zero are undefined behaviour in C++ and are results
    \<open>Inl SignedOverflow\<close>, \<open>Inl DivideByZero\<close> of the model.
  \<^item> A raw array (\<^verbatim>\<open>double *\<close>, \<^verbatim>\<open>conduit::DataArray\<close>) is a list; a read outside of it is
    \<open>Inl OutOfBounds\<close>.
  \<^item> A \<^verbatim>\<open>conduit::Node\<close> tree is a record per schema object with association lists for
    named children; fetching a path that does not exist from a \<^verbatim>\<open>const Node\<close> throws in
    conduit and is \<open>Inl ConduitError\<close>; \<^verbatim>\<open>child(i)\<close> outside the children is
    \<open>Inl InvalidChild\<close>.
  \<^item> \<^verbatim>\<open>ASCENT_ERROR(msg)\<close> is \<open>Inl (AscentError msg)\<close>.
\<close>

datatype error =
    AscentError string
  | ConduitError
  | InvalidChild
  | OutOfBounds
  | SignedOverflow
  | DivideByZero
  | BadArrayLength
  | NonFinite

text \<open>Sequencing of fallible steps: the first error ends the computation.\<close>

definition bnd :: "error + 'a \<Rightarrow> ('a \<Rightarrow> error + 'b) \<Rightarrow> error + 'b" where
  "bnd m f = (case m of Inl e \<Rightarrow> Inl e | Inr x \<Rightarrow> f x)"

subsection \<open>C integers\<close>

definition INT_MIN :: int where
  "INT_MIN = - 2147483648"

definition INT_MAX :: int where
  "INT_MAX = 2147483647"

definition in_int :: "int \<Rightarrow> bool" where
  "in_int x = (INT_MIN \<le> x \<and> x \<le> INT_MAX)"

definition c_int :: "int \<Rightarrow> error + int" where
  "c_int x = (if in_int x then Inr x else Inl SignedOverflow)"

definition c_add :: "int \<Rightarrow> int \<Rightarrow> error + int" where
  "c_add a b = c_int (a + b)"

definition c_sub :: "int \<Rightarrow> int \<Rightarrow> error + int" where
  "c_sub a b = c_int (a - b)"

definition c_mul :: "int \<Rightarrow> int \<Rightarrow> error + int" where
  "c_mul a b = c_int (a * b)"

text \<open>\<^verbatim>\<open>a / b\<close> and \<^verbatim>\<open>a % b\<close> on \<^verbatim>\<open>int\<close>: truncation towards zero, the remainder with the
  sign of the dividend.\<close>

definition c_div :: "int \<Rightarrow> int \<Rightarrow> error + int" where
  "c_div a b = (if b = 0 then Inl DivideByZero else c_int (a sdiv b))"

definition c_mod :: "int \<Rightarrow> int \<Rightarrow> error + int" where
  "c_mod a b =
     (if b = 0 then Inl DivideByZero
      else if a = INT_MIN \<and> b = - 1 then Inl SignedOverflow
      else Inr (a smod b))"

subsection \<open>Raw arrays\<close>

definition read_at :: "'a list \<Rightarrow> int \<Rightarrow> error + 'a" where
  "read_at xs i = (if 0 \<le> i \<and> i < int (length xs) then Inr (xs ! nat i) else Inl OutOfBounds)"

subsection \<open>The array reductions of \<^verbatim>\<open>ascent_conduit_reductions.hpp\<close>\<close>

text \<open>Modelled from the spec: \<^verbatim>\<open>array_sum\<close> is declared in
  \<^verbatim>\<open>ascent_conduit_reductions.hpp\<close>, which is not among the sources. The spec's contract
  for the local reducer is: a pure function over one array, producing \<open>{sum, count}\<close>.\<close>

definition array_sum :: "real list \<Rightarrow> real \<times> int" where
  "array_sum xs = (sum_list xs, int (length xs))"

section \<open>Distribution operations on a histogram\<close>

text \<open>The histogram node: \<^verbatim>\<open>attrs/value/value\<close>, \<^verbatim>\<open>attrs/min_val/value\<close>,
  \<^verbatim>\<open>attrs/max_val/value\<close>, \<^verbatim>\<open>attrs/num_bins/value\<close>.\<close>

record hist =
  hist_bins :: "real list"
  min_val :: real
  max_val :: real
  num_bins :: int

text \<open>The bins a loop \<^verbatim>\<open>for(b = 0; b < num_bins; ++b)\<close> reads from the array: the first
  \<open>num_bins\<close> entries, or a read past the end.\<close>

definition loop_bins :: "hist \<Rightarrow> error + real list" where
  "loop_bins h =
     (if nat (num_bins h) \<le> length (hist_bins h) then Inr (take (nat (num_bins h)) (hist_bins h))
      else Inl OutOfBounds)"

text \<open>\<^verbatim>\<open>field_entropy\<close>: one step of the loop body, then the loop.\<close>

definition entropy_step :: "real \<Rightarrow> real \<Rightarrow> real \<Rightarrow> error + real" where
  "entropy_step hsum entropy x =
     (if x \<noteq> 0 then
        (if hsum = 0 \<or> x / hsum < 0 then Inl NonFinite
         else Inr (entropy + - (x / hsum) * ln (x / hsum)))
      else Inr entropy)"

fun entropy_loop :: "real \<Rightarrow> real \<Rightarrow> real list \<Rightarrow> error + real" where
  "entropy_loop hsum entropy [] = Inr entropy"
| "entropy_loop hsum entropy (x # xs) =
     bnd (entropy_step hsum entropy x) (\<lambda>entropy'. entropy_loop hsum entropy' xs)"

definition field_entropy :: "hist \<Rightarrow> error + real" where
  "field_entropy h =
     (let hsum = fst (array_sum (hist_bins h)) in
      bnd (loop_bins h) (\<lambda>bs. entropy_loop hsum 0 bs))"

text \<open>\<^verbatim>\<open>field_pdf\<close>. \<^verbatim>\<open>new double[num_bins]\<close> with a negative length does not return an
  array.\<close>

definition field_pdf :: "hist \<Rightarrow> error + hist" where
  "field_pdf h =
     (let hsum = fst (array_sum (hist_bins h)) in
      if num_bins h < 0 then Inl BadArrayLength
      else bnd (loop_bins h) (\<lambda>bs.
        if hsum = 0 \<and> bs \<noteq> [] then Inl NonFinite
        else Inr \<lparr>hist_bins = map (\<lambda>x. x / hsum) bs,
                  min_val = min_val h, max_val = max_val h, num_bins = num_bins h\<rparr>))"

text \<open>\<^verbatim>\<open>field_cdf\<close>: the loop carries \<^verbatim>\<open>rolling_cdf\<close>.\<close>

fun cdf_loop :: "real \<Rightarrow> real \<Rightarrow> real list \<Rightarrow> real list" where
  "cdf_loop hsum rolling_cdf [] = []"
| "cdf_loop hsum rolling_cdf (x # xs) =
     (rolling_cdf + x / hsum) # cdf_loop hsum (rolling_cdf + x / hsum) xs"

definition field_cdf :: "hist \<Rightarrow> error + hist" where
  "field_cdf h =
     (let hsum = fst (array_sum (hist_bins h)) in
      if num_bins h < 0 then Inl BadArrayLength
      else bnd (loop_bins h) (\<lambda>bs.
        if hsum = 0 \<and> bs \<noteq> [] then Inl NonFinite
        else Inr \<lparr>hist_bins = cdf_loop hsum 0 bs,
                  min_val = min_val h, max_val = max_val h, num_bins = num_bins h\<rparr>))"

text \<open>\<^verbatim>\<open>quantile\<close>. The scan \<^verbatim>\<open>for(; cdf_bins[bin] < val; ++bin);\<close> has no bound of its own: it
  ends at the first entry that is not below \<open>val\<close>, or reads past the array.\<close>

function cdf_scan :: "real list \<Rightarrow> real \<Rightarrow> nat \<Rightarrow> error + nat" where
  "cdf_scan cdf_bins val bin =
     (if length cdf_bins \<le> bin then Inl OutOfBounds
      else if cdf_bins ! bin < val then cdf_scan cdf_bins val (Suc bin)
      else Inr bin)"
  by pat_completeness auto
termination
  by (relation "measure (\<lambda>(cdf_bins, val, bin). length cdf_bins - bin)") auto

text \<open>The bin after the scan and the decrement \<^verbatim>\<open>if(cdf_bins[bin] > val) --bin;\<close> (the
  source's comment: "we overshot").\<close>

definition quantile_bin :: "real list \<Rightarrow> real \<Rightarrow> error + int" where
  "quantile_bin cdf_bins val =
     bnd (cdf_scan cdf_bins val 0) (\<lambda>b.
       Inr (if cdf_bins ! b > val then int b - 1 else int b))"

text \<open>The bin boundaries \<open>i\<close> and \<open>j\<close> of the source.\<close>

definition bin_i :: "hist \<Rightarrow> int \<Rightarrow> real" where
  "bin_i cdf bin = min_val cdf + of_int bin * (max_val cdf - min_val cdf) / of_int (num_bins cdf)"

definition bin_j :: "hist \<Rightarrow> int \<Rightarrow> real" where
  "bin_j cdf bin =
     min_val cdf + of_int (bin + 1) * (max_val cdf - min_val cdf) / of_int (num_bins cdf)"

text \<open>The result node holds \<^verbatim>\<open>value\<close> only when the interpolation is one of the five
  the source knows: \<open>Inr None\<close> is the empty node. With \<open>num_bins = 0\<close> both boundaries are
  quotients by zero.\<close>

definition quantile :: "hist \<Rightarrow> real \<Rightarrow> string \<Rightarrow> error + real option" where
  "quantile cdf val interpolation =
     bnd (quantile_bin (hist_bins cdf) val) (\<lambda>bin.
       let i = bin_i cdf bin; j = bin_j cdf bin in
       if interpolation = ''linear'' then
         bnd (read_at (hist_bins cdf) (bin + 1)) (\<lambda>c1.
         bnd (read_at (hist_bins cdf) bin) (\<lambda>c0.
           if num_bins cdf = 0 then Inl NonFinite
           else if c1 - c0 = 0 then Inr (Some i)
           else Inr (Some (i + (j - i) * (val - c0) / (c1 - c0)))))
       else if interpolation = ''lower'' then
         (if num_bins cdf = 0 then Inl NonFinite else Inr (Some i))
       else if interpolation = ''higher'' then
         (if num_bins cdf = 0 then Inl NonFinite else Inr (Some j))
       else if interpolation = ''midpoint'' then
         (if num_bins cdf = 0 then Inl NonFinite else Inr (Some ((i + j) / 2)))
       else if interpolation = ''nearest'' then
         (if num_bins cdf = 0 then Inl NonFinite else Inr (Some (if val - i < j - val then i else j)))
       else Inr None)"

section \<open>Index arithmetic\<close>

definition get_num_indices :: "string \<Rightarrow> error + int" where
  "get_num_indices shape_type =
     (if shape_type = ''tri'' then Inr 3
      else if shape_type = ''quad'' then Inr 4
      else if shape_type = ''tet'' then Inr 4
      else if shape_type = ''hex'' then Inr 8
      else if shape_type = ''point'' then Inr 1
      else Inl (AscentError (''Unsupported element type '' @ shape_type)))"

text \<open>An \<^verbatim>\<open>int[3]\<close> is a triple. \<^verbatim>\<open>logical_index_2d\<close> writes \<^verbatim>\<open>idx[0]\<close> and \<^verbatim>\<open>idx[1]\<close> and leaves
  \<^verbatim>\<open>idx[2]\<close> as the caller set it; \<^verbatim>\<open>logical_index_3d\<close> writes all three.\<close>

type_synonym int3 = "int \<times> int \<times> int"

type_synonym real3 = "real \<times> real \<times> real"

fun logical_index_2d :: "int3 \<Rightarrow> int \<Rightarrow> int3 \<Rightarrow> error + int3" where
  "logical_index_2d (idx0, idx1, idx2) vert_index (dims0, dims1, dims2) =
     bnd (c_mod vert_index dims0) (\<lambda>r0.
     bnd (c_div vert_index dims0) (\<lambda>r1.
       Inr (r0, r1, idx2)))"

fun logical_index_3d :: "int3 \<Rightarrow> int \<Rightarrow> int3 \<Rightarrow> error + int3" where
  "logical_index_3d (idx0, idx1, idx2) vert_index (dims0, dims1, dims2) =
     bnd (c_mod vert_index dims0) (\<lambda>r0.
     bnd (c_div vert_index dims0) (\<lambda>q.
     bnd (c_mod q dims1) (\<lambda>r1.
     bnd (c_mul dims0 dims1) (\<lambda>p.
     bnd (c_div vert_index p) (\<lambda>r2.
       Inr (r0, r1, r2))))))"

section \<open>The mesh data of a domain\<close>

text \<open>\<^verbatim>\<open>topologies/<name>/elements\<close>: \<^verbatim>\<open>shape\<close> and \<^verbatim>\<open>connectivity\<close> of an unstructured
  topology, \<^verbatim>\<open>dims/i\<close>, \<^verbatim>\<open>dims/j\<close>, \<^verbatim>\<open>dims/k\<close> of a structured one. A child that is absent is
  \<open>None\<close>.\<close>

record elements_node =
  shape :: "string option"
  connectivity :: "int list option"
  elem_dims_i :: "int option"
  elem_dims_j :: "int option"
  elem_dims_k :: "int option"

record topology_node =
  mesh_type :: string
  coords_name :: string
  elements :: elements_node

text \<open>A coordset either has \<^verbatim>\<open>dims\<close>, \<^verbatim>\<open>origin\<close> and \<^verbatim>\<open>spacing\<close> (uniform; \<^verbatim>\<open>k\<close>, \<^verbatim>\<open>z\<close>, \<^verbatim>\<open>dz\<close>
  optional) or \<^verbatim>\<open>values/x\<close>, \<^verbatim>\<open>values/y\<close> and optionally \<^verbatim>\<open>values/z\<close> (rectilinear and
  explicit).\<close>

record uniform_node =
  dims_i :: int
  dims_j :: int
  dims_k :: "int option"
  origin_x :: real
  origin_y :: real
  origin_z :: "real option"
  spacing_dx :: real
  spacing_dy :: real
  spacing_dz :: "real option"

record values_node =
  values_x :: "real list"
  values_y :: "real list"
  values_z :: "real list option"

datatype coordset_node = UniformSet uniform_node | ValuesSet values_node

record field_node =
  association :: string
  field_topology :: string
  field_values :: "real list"

record domain_node =
  topologies :: "(string \<times> topology_node) list"
  coordsets :: "(string \<times> coordset_node) list"
  dom_fields :: "(string \<times> field_node) list"
  state_domain_id :: int

type_synonym dataset = "domain_node list"

text \<open>\<^verbatim>\<open>node[path]\<close> on a \<^verbatim>\<open>const Node\<close>, \<^verbatim>\<open>has_path\<close>, and \<^verbatim>\<open>child(i)\<close>.\<close>

definition fetch :: "(string \<times> 'a) list \<Rightarrow> string \<Rightarrow> error + 'a" where
  "fetch children path = (case map_of children path of None \<Rightarrow> Inl ConduitError | Some n \<Rightarrow> Inr n)"

definition fetch_opt :: "'a option \<Rightarrow> error + 'a" where
  "fetch_opt child = (case child of None \<Rightarrow> Inl ConduitError | Some n \<Rightarrow> Inr n)"

definition has_path :: "(string \<times> 'a) list \<Rightarrow> string \<Rightarrow> bool" where
  "has_path children path = (map_of children path \<noteq> None)"

definition child :: "'a list \<Rightarrow> int \<Rightarrow> error + 'a" where
  "child children i =
     (if 0 \<le> i \<and> i < int (length children) then Inr (children ! nat i) else Inl InvalidChild)"

section \<open>Vertex locations\<close>

record UniformCoords =
  m_origin :: real3
  m_spacing :: real3
  m_dims :: int3
  m_is_2d :: bool

definition populate :: "uniform_node \<Rightarrow> UniformCoords" where
  "populate n_coords =
     \<lparr>m_origin = (origin_x n_coords, origin_y n_coords,
                  (case origin_z n_coords of None \<Rightarrow> 0 | Some z \<Rightarrow> z)),
      m_spacing = (spacing_dx n_coords, spacing_dy n_coords,
                   (case spacing_dz n_coords of None \<Rightarrow> 1 | Some dz \<Rightarrow> dz)),
      m_dims = (dims_i n_coords, dims_j n_coords,
                (case dims_k n_coords of None \<Rightarrow> 1 | Some k \<Rightarrow> k)),
      m_is_2d = (dims_k n_coords = None)\<rparr>"

definition uniform_coords :: "coordset_node \<Rightarrow> error + UniformCoords" where
  "uniform_coords n_coords =
     (case n_coords of UniformSet u \<Rightarrow> Inr (populate u) | ValuesSet v \<Rightarrow> Inl ConduitError)"

definition coord_values :: "coordset_node \<Rightarrow> error + values_node" where
  "coord_values n_coords =
     (case n_coords of UniformSet u \<Rightarrow> Inl ConduitError | ValuesSet v \<Rightarrow> Inr v)"

definition get_uniform_vert :: "coordset_node \<Rightarrow> int \<Rightarrow> error + real3" where
  "get_uniform_vert n_coords index =
     bnd (uniform_coords n_coords) (\<lambda>coords.
     bnd (if m_is_2d coords then logical_index_2d (0, 0, 0) index (m_dims coords)
          else logical_index_3d (0, 0, 0) index (m_dims coords)) (\<lambda>(l0, l1, l2).
       case (m_origin coords, m_spacing coords) of ((o0, o1, o2), (s0, s1, s2)) \<Rightarrow>
         Inr (o0 + of_int l0 * s0, o1 + of_int l1 * s1, o2 + of_int l2 * s2)))"

definition get_explicit_vert :: "coordset_node \<Rightarrow> int \<Rightarrow> error + real3" where
  "get_explicit_vert n_coords index =
     bnd (coord_values n_coords) (\<lambda>v.
     bnd (fetch_opt (values_z v)) (\<lambda>z_a.
     bnd (read_at (values_x v) index) (\<lambda>x.
     bnd (read_at (values_y v) index) (\<lambda>y.
     bnd (read_at z_a index) (\<lambda>z.
       Inr (x, y, z))))))"

text \<open>The array lengths of a rectilinear coordset, \<^verbatim>\<open>dims[2] = 0\<close> without \<^verbatim>\<open>values/z\<close>.\<close>

definition rectilinear_dims :: "values_node \<Rightarrow> int3" where
  "rectilinear_dims v =
     (int (length (values_x v)), int (length (values_y v)),
      (case values_z v of None \<Rightarrow> 0 | Some z_a \<Rightarrow> int (length z_a)))"

definition get_rectilinear_vert :: "coordset_node \<Rightarrow> int \<Rightarrow> error + real3" where
  "get_rectilinear_vert n_coords index =
     bnd (coord_values n_coords) (\<lambda>v.
     case rectilinear_dims v of (d0, d1, d2) \<Rightarrow>
     bnd (if d2 = 0 then logical_index_2d (0, 0, 0) index (d0, d1, d2)
          else logical_index_3d (0, 0, 0) index (d0, d1, d2)) (\<lambda>(l0, l1, l2).
     bnd (read_at (values_x v) l0) (\<lambda>x.
     bnd (read_at (values_y v) l1) (\<lambda>y.
     bnd (if d2 \<noteq> 0 then bnd (fetch_opt (values_z v)) (\<lambda>z_a. read_at z_a l2) else Inr 0) (\<lambda>z.
       Inr (x, y, z))))))"

definition first_topology :: "domain_node \<Rightarrow> error + string" where
  "first_topology domain = (case topologies domain of [] \<Rightarrow> Inl InvalidChild | (name, t) # ts \<Rightarrow> Inr name)"

definition vert_location :: "domain_node \<Rightarrow> int \<Rightarrow> string \<Rightarrow> error + real3" where
  "vert_location domain index topo_name =
     bnd (if topo_name = '''' then first_topology domain else Inr topo_name) (\<lambda>topo.
     bnd (fetch (topologies domain) topo) (\<lambda>n_topo.
     bnd (fetch (coordsets domain) (coords_name n_topo)) (\<lambda>n_coords.
       if mesh_type n_topo = ''uniform'' then get_uniform_vert n_coords index
       else if mesh_type n_topo = ''rectilinear'' then get_rectilinear_vert n_coords index
       else if mesh_type n_topo = ''unstructured'' \<or> mesh_type n_topo = ''structured''
         then get_explicit_vert n_coords index
       else Inl (AscentError (''The Architect: unknown mesh type: '' @ [CHR 0x27]
                              @ mesh_type n_topo @ [CHR 0x27])))))"

section \<open>Element locations\<close>

text \<open>\<^verbatim>\<open>std::vector<int>::resize(n)\<close>: the first \<open>n\<close> entries, new entries are zero.\<close>

definition resize :: "nat \<Rightarrow> int list \<Rightarrow> int list" where
  "resize n xs = take n xs @ replicate (n - length xs) 0"

text \<open>The loop \<^verbatim>\<open>for(i = 0; i < num_indices; ++i) indices.push_back(conn_a[offset + i])\<close>; the
  fourth argument counts the iterations left.\<close>

fun conn_loop :: "int list \<Rightarrow> int \<Rightarrow> int \<Rightarrow> nat \<Rightarrow> int list \<Rightarrow> error + int list" where
  "conn_loop conn_a offset i 0 indices = Inr indices"
| "conn_loop conn_a offset i (Suc n) indices =
     bnd (c_add offset i) (\<lambda>pos.
     bnd (read_at conn_a pos) (\<lambda>v.
       conn_loop conn_a offset (i + 1) n (indices @ [v])))"

text \<open>The corner indices of a structured cell as the else-branch computes them. The list
  is the vector after \<^verbatim>\<open>resize(4)\<close> or \<^verbatim>\<open>resize(8)\<close> and the assignment of every entry.\<close>

definition quad_corners :: "int3 \<Rightarrow> int3 \<Rightarrow> error + int list" where
  "quad_corners element_index vert_dims =
     (case (element_index, vert_dims) of ((e0, e1, e2), (vd0, vd1, vd2)) \<Rightarrow>
        bnd (c_mul e1 vd0) (\<lambda>m.
        bnd (c_add m e0) (\<lambda>i0.
        bnd (c_add i0 1) (\<lambda>i1.
        bnd (c_add i1 vd0) (\<lambda>i2.
        bnd (c_sub i2 1) (\<lambda>i3.
          Inr [i0, i1, i2, i3]))))))"

definition hex_corners :: "int3 \<Rightarrow> int3 \<Rightarrow> error + int list" where
  "hex_corners element_index vert_dims =
     (case (element_index, vert_dims) of ((e0, e1, e2), (vd0, vd1, vd2)) \<Rightarrow>
        bnd (c_mul e2 vd1) (\<lambda>m.
        bnd (c_add m e1) (\<lambda>a.
        bnd (c_mul a vd0) (\<lambda>n.
        bnd (c_add n e0) (\<lambda>i0.
        bnd (c_add i0 1) (\<lambda>i1.
        bnd (c_add i1 vd1) (\<lambda>i2.
        bnd (c_sub i2 1) (\<lambda>i3.
        bnd (c_mul vd0 vd2) (\<lambda>layer.
        bnd (c_add i0 layer) (\<lambda>i4.
        bnd (c_add i4 1) (\<lambda>i5.
        bnd (c_add i5 vd1) (\<lambda>i6.
        bnd (c_sub i6 1) (\<lambda>i7.
          Inr [i0, i1, i2, i3, i4, i5, i6, i7])))))))))))))"

text \<open>\<^verbatim>\<open>get_element_indices\<close>. In the else-branch the test that decides between two and three
  dimensions is \<^verbatim>\<open>n_topo.has_path("elements/dims/j")\<close>, after \<^verbatim>\<open>elements/dims/j\<close> has been
  read.\<close>

definition get_element_indices :: "topology_node \<Rightarrow> int \<Rightarrow> int list \<Rightarrow> error + int list" where
  "get_element_indices n_topo index indices =
     (if mesh_type n_topo = ''unstructured'' then
        bnd (fetch_opt (shape (elements n_topo))) (\<lambda>ele_shape.
        bnd (get_num_indices ele_shape) (\<lambda>num_indices.
        bnd (fetch_opt (connectivity (elements n_topo))) (\<lambda>conn_a.
        bnd (c_mul index num_indices) (\<lambda>offset.
          conn_loop conn_a offset 0 (nat num_indices) (resize (nat num_indices) indices)))))
      else
        bnd (fetch_opt (elem_dims_i (elements n_topo))) (\<lambda>di.
        bnd (c_add di 1) (\<lambda>vd0.
        bnd (fetch_opt (elem_dims_j (elements n_topo))) (\<lambda>dj.
        bnd (c_add dj 1) (\<lambda>vd1.
        bnd (if elem_dims_j (elements n_topo) \<noteq> None
             then bnd (fetch_opt (elem_dims_k (elements n_topo))) (\<lambda>dk.
                  bnd (c_add dk 1) (\<lambda>vd2. Inr (vd2, False)))
             else Inr (0, True)) (\<lambda>(vd2, is_2d).
        bnd (c_sub vd0 1) (\<lambda>ed0.
        bnd (c_sub vd1 1) (\<lambda>ed1.
        bnd (c_sub vd2 1) (\<lambda>ed2.
          if is_2d then
            bnd (logical_index_2d (0, 0, 0) index (ed0, ed1, ed2)) (\<lambda>element_index.
              quad_corners element_index (vd0, vd1, vd2))
          else
            bnd (logical_index_3d (0, 0, 0) index (ed0, ed1, ed2)) (\<lambda>element_index.
              hex_corners element_index (vd0, vd1, vd2)))))))))))"

definition get_uniform_element :: "coordset_node \<Rightarrow> int \<Rightarrow> error + real3" where
  "get_uniform_element n_coords index =
     bnd (uniform_coords n_coords) (\<lambda>coords.
     case m_dims coords of (d0, d1, d2) \<Rightarrow>
     bnd (c_sub d0 1) (\<lambda>ed0.
     bnd (c_sub d1 1) (\<lambda>ed1.
     bnd (c_sub d2 1) (\<lambda>ed2.
     bnd (if m_is_2d coords then logical_index_2d (0, 0, 0) index (ed0, ed1, ed2)
          else logical_index_3d (0, 0, 0) index (ed0, ed1, ed2)) (\<lambda>(l0, l1, l2).
       case (m_origin coords, m_spacing coords) of ((o0, o1, o2), (s0, s1, s2)) \<Rightarrow>
         Inr (o0 + of_int l0 * s0 + s0 * (1 / 2),
              o1 + of_int l1 * s1 + s1 * (1 / 2),
              o2 + of_int l2 * s2 + s2 * (1 / 2)))))))"

text \<open>\<^verbatim>\<open>(a[l] + a[l + 1]) * 0.5\<close> on a coordinate array.\<close>

definition cell_centre :: "real list \<Rightarrow> int \<Rightarrow> error + real" where
  "cell_centre a l =
     bnd (read_at a l) (\<lambda>lo.
     bnd (c_add l 1) (\<lambda>l1.
     bnd (read_at a l1) (\<lambda>hi.
       Inr ((lo + hi) * (1 / 2)))))"

definition get_rectilinear_element :: "coordset_node \<Rightarrow> int \<Rightarrow> error + real3" where
  "get_rectilinear_element n_coords index =
     bnd (coord_values n_coords) (\<lambda>v.
     case rectilinear_dims v of (d0, d1, d2) \<Rightarrow>
     bnd (c_sub d0 1) (\<lambda>ed0.
     bnd (c_sub d1 1) (\<lambda>ed1.
     bnd (c_sub d2 1) (\<lambda>ed2.
     bnd (if d2 = 0 then logical_index_2d (0, 0, 0) index (ed0, ed1, ed2)
          else logical_index_3d (0, 0, 0) index (ed0, ed1, ed2)) (\<lambda>(l0, l1, l2).
     bnd (cell_centre (values_x v) l0) (\<lambda>x.
     bnd (cell_centre (values_y v) l1) (\<lambda>y.
     bnd (if d2 \<noteq> 0 then bnd (fetch_opt (values_z v)) (\<lambda>z_a. cell_centre z_a l2) else Inr 0) (\<lambda>z.
       Inr (x, y, z)))))))))"

text \<open>\<^verbatim>\<open>get_explicit_element\<close>: the sum over \<^verbatim>\<open>conn\<close>, then the division by \<^verbatim>\<open>conn.size()\<close>.\<close>

fun vert_sum :: "coordset_node \<Rightarrow> int list \<Rightarrow> real3 \<Rightarrow> error + real3" where
  "vert_sum n_coords [] vert = Inr vert"
| "vert_sum n_coords (vert_index # conn) (v0, v1, v2) =
     bnd (get_explicit_vert n_coords vert_index) (\<lambda>(p0, p1, p2).
       vert_sum n_coords conn (v0 + p0, v1 + p1, v2 + p2))"

definition get_explicit_element :: "coordset_node \<Rightarrow> topology_node \<Rightarrow> int \<Rightarrow> error + real3" where
  "get_explicit_element n_coords n_topo index =
     bnd (get_element_indices n_topo index []) (\<lambda>conn.
     bnd (vert_sum n_coords conn (0, 0, 0)) (\<lambda>(v0, v1, v2).
       if conn = [] then Inl NonFinite
       else Inr (v0 / real (length conn), v1 / real (length conn), v2 / real (length conn))))"

definition element_location :: "domain_node \<Rightarrow> int \<Rightarrow> string \<Rightarrow> error + real3" where
  "element_location domain index topo_name =
     bnd (if topo_name = '''' then first_topology domain else Inr topo_name) (\<lambda>topo.
     bnd (fetch (topologies domain) topo) (\<lambda>n_topo.
     bnd (fetch (coordsets domain) (coords_name n_topo)) (\<lambda>n_coords.
       if mesh_type n_topo = ''uniform'' then get_uniform_element n_coords index
       else if mesh_type n_topo = ''rectilinear'' then get_rectilinear_element n_coords index
       else if mesh_type n_topo = ''unstructured'' \<or> mesh_type n_topo = ''structured''
         then get_explicit_element n_coords n_topo index
       else Inl (AscentError (''The Architect: unknown mesh type: '' @ [CHR 0x27]
                              @ mesh_type n_topo @ [CHR 0x27])))))"

section \<open>Reductions of a field over the domains of a dataset\<close>

text \<open>The reductions over one array (\<^verbatim>\<open>array_histogram\<close>, \<^verbatim>\<open>array_min\<close>, \<^verbatim>\<open>array_max\<close>) are
  declared in \<^verbatim>\<open>ascent_conduit_reductions.hpp\<close>, which is not among the sources; the functions
  below take them as their first argument. \<^verbatim>\<open>array_min\<close> and \<^verbatim>\<open>array_max\<close> return the nodes
  \<^verbatim>\<open>value\<close> and \<^verbatim>\<open>index\<close> as a pair.\<close>

text \<open>\<^verbatim>\<open>field_histogram\<close>: \<^verbatim>\<open>bins[b] += dom_hist[b]\<close> for \<open>b < num_bins\<close>, per domain that has the
  field.\<close>

definition add_bins :: "real list \<Rightarrow> real list \<Rightarrow> error + real list" where
  "add_bins bins dom_hist =
     (if length bins \<le> length dom_hist then Inr (map2 (+) bins dom_hist) else Inl OutOfBounds)"

fun histogram_loop ::
  "(real list \<Rightarrow> real \<Rightarrow> real \<Rightarrow> int \<Rightarrow> real list) \<Rightarrow> dataset \<Rightarrow> string \<Rightarrow> real \<Rightarrow> real \<Rightarrow> int
     \<Rightarrow> real list \<Rightarrow> error + real list" where
  "histogram_loop array_histogram [] field mn mx n bins = Inr bins"
| "histogram_loop array_histogram (dm # rest) field mn mx n bins =
     (case map_of (dom_fields dm) field of
        None \<Rightarrow> histogram_loop array_histogram rest field mn mx n bins
      | Some n_field \<Rightarrow>
          bnd (add_bins bins (array_histogram (field_values n_field) mn mx n)) (\<lambda>bins'.
            histogram_loop array_histogram rest field mn mx n bins'))"

text \<open>After the loop \<^verbatim>\<open>field_histogram\<close> has a block under \<^verbatim>\<open>#ifdef ASCENT_MPI_ENABLED\<close> that
  changes the bins it returns, so the function takes the build as an argument: the
  serial build, or the MPI build run on a communicator of one rank. (With more ranks the
  call below adds the 32-bit halves of the doubles as integers, which has no model over
  the reals.)

  The block allocates \<^verbatim>\<open>global_bins = new double[num_bins]\<close>, whose content is indeterminate,
  calls \<^verbatim>\<open>MPI_Allreduce(bins, global_bins, num_bins, MPI_INT, MPI_SUM, mpi_comm)\<close> and returns
  \<^verbatim>\<open>global_bins\<close>. With the datatype \<^verbatim>\<open>MPI_INT\<close> and the count \<open>num_bins\<close> the call reduces
  \<open>num_bins\<close> 4-byte integers, that is the first \<open>4 * num_bins\<close> bytes of the two buffers, and
  on one rank the sum is the send buffer itself. A double has 8 bytes: double \<open>b\<close> of
  \<^verbatim>\<open>global_bins\<close> is double \<open>b\<close> of \<^verbatim>\<open>bins\<close> when both of its words are among the first \<open>num_bins\<close>
  words (\<open>2 * b + 1 < num_bins\<close>); for odd \<open>num_bins\<close> the double in the middle has one word of
  \<^verbatim>\<open>bins\<close> and one of the allocation; the doubles after it are what the allocation held.
  The build \<open>MPI_one_rank fresh mix\<close> carries the content \<open>fresh b\<close> of the allocation at
  index \<open>b\<close> and the double \<open>mix x y\<close> made of the first word of \<open>x\<close> and the second word of
  \<open>y\<close>.\<close>

datatype build = Serial | MPI_one_rank "nat \<Rightarrow> real" "real \<Rightarrow> real \<Rightarrow> real"

definition allreduce_int_one_rank ::
  "(nat \<Rightarrow> real) \<Rightarrow> (real \<Rightarrow> real \<Rightarrow> real) \<Rightarrow> real list \<Rightarrow> nat \<Rightarrow> real list" where
  "allreduce_int_one_rank fresh mix bins count =
     map (\<lambda>b. if 2 * b + 1 < count then bins ! b
              else if 2 * b < count then mix (bins ! b) (fresh b)
              else fresh b)
         [0..<length bins]"

definition field_histogram ::
  "build \<Rightarrow> (real list \<Rightarrow> real \<Rightarrow> real \<Rightarrow> int \<Rightarrow> real list) \<Rightarrow> dataset \<Rightarrow> string \<Rightarrow> real \<Rightarrow> real \<Rightarrow> int
     \<Rightarrow> error + hist" where
  "field_histogram bld array_histogram dataset field mn mx n =
     (if n < 0 then Inl BadArrayLength
      else bnd (histogram_loop array_histogram dataset field mn mx n (replicate (nat n) 0)) (\<lambda>bins.
        Inr \<lparr>hist_bins =
               (case bld of
                  Serial \<Rightarrow> bins
                | MPI_one_rank fresh mix \<Rightarrow> allreduce_int_one_rank fresh mix bins (nat n)),
             min_val = mn, max_val = mx, num_bins = n\<rparr>))"

text \<open>\<^verbatim>\<open>field_sum\<close> and \<^verbatim>\<open>field_avg\<close>. The result node of \<^verbatim>\<open>field_sum\<close> is the pair of \<^verbatim>\<open>value\<close> and
  \<^verbatim>\<open>count\<close>. The count is a \<^verbatim>\<open>long long\<close>; it counts array elements held in memory and is
  an unbounded integer here.\<close>

fun sum_loop :: "dataset \<Rightarrow> string \<Rightarrow> real \<times> int \<Rightarrow> real \<times> int" where
  "sum_loop [] field (s, count) = (s, count)"
| "sum_loop (dm # rest) field (s, count) =
     (case map_of (dom_fields dm) field of
        None \<Rightarrow> sum_loop rest field (s, count)
      | Some n_field \<Rightarrow>
          (case array_sum (field_values n_field) of (a_sum, a_count) \<Rightarrow>
             sum_loop rest field (s + a_sum, count + a_count)))"

definition field_sum :: "dataset \<Rightarrow> string \<Rightarrow> real \<times> int" where
  "field_sum dataset field = sum_loop dataset field (0, 0)"

definition field_avg :: "dataset \<Rightarrow> string \<Rightarrow> error + real" where
  "field_avg dataset field =
     (case field_sum dataset field of (s, count) \<Rightarrow>
        if count = 0 then Inl NonFinite else Inr (s / of_int count))"

text \<open>\<^verbatim>\<open>field_min\<close> and \<^verbatim>\<open>field_max\<close>. The loop state is
  \<open>(min_value, domain, domain_id, index)\<close>; the second argument of the loop is the loop
  counter \<open>i\<close>.\<close>

definition DBL_MAX :: real where
  "DBL_MAX = 2 ^ 1024 - 2 ^ 971"

record extremum =
  ext_value :: real
  ext_rank :: int
  ext_domain_id :: int
  ext_position :: real3

fun min_loop ::
  "(real list \<Rightarrow> real \<times> int) \<Rightarrow> int \<Rightarrow> dataset \<Rightarrow> string \<Rightarrow> real \<times> int \<times> int \<times> int
     \<Rightarrow> real \<times> int \<times> int \<times> int" where
  "min_loop array_min i [] field st = st"
| "min_loop array_min i (dm # rest) field (min_value, domain, domain_id, index) =
     (case map_of (dom_fields dm) field of
        None \<Rightarrow> min_loop array_min (i + 1) rest field (min_value, domain, domain_id, index)
      | Some n_field \<Rightarrow>
          (case array_min (field_values n_field) of (a_min, a_index) \<Rightarrow>
             if a_min < min_value
             then min_loop array_min (i + 1) rest field (a_min, i, state_domain_id dm, a_index)
             else min_loop array_min (i + 1) rest field (min_value, domain, domain_id, index)))"

fun max_loop ::
  "(real list \<Rightarrow> real \<times> int) \<Rightarrow> int \<Rightarrow> dataset \<Rightarrow> string \<Rightarrow> real \<times> int \<times> int \<times> int
     \<Rightarrow> real \<times> int \<times> int \<times> int" where
  "max_loop array_max i [] field st = st"
| "max_loop array_max i (dm # rest) field (max_value, domain, domain_id, index) =
     (case map_of (dom_fields dm) field of
        None \<Rightarrow> max_loop array_max (i + 1) rest field (max_value, domain, domain_id, index)
      | Some n_field \<Rightarrow>
          (case array_max (field_values n_field) of (a_max, a_index) \<Rightarrow>
             if a_max > max_value
             then max_loop array_max (i + 1) rest field (a_max, i, state_domain_id dm, a_index)
             else max_loop array_max (i + 1) rest field (max_value, domain, domain_id, index)))"

text \<open>What follows the loop in both functions: the association string is read from
  \<^verbatim>\<open>dataset.child(0)\<close>, the location from \<^verbatim>\<open>dataset.child(domain)\<close>. The source calls
  \<^verbatim>\<open>vert_location\<close> and \<^verbatim>\<open>element_location\<close> with two arguments; the default of \<^verbatim>\<open>topo_name\<close>
  (declared in the header, which is not among the sources) is taken to be the empty
  string, the case the two functions test for.\<close>

definition extremum_location :: "dataset \<Rightarrow> string \<Rightarrow> int \<Rightarrow> int \<Rightarrow> error + real3" where
  "extremum_location dataset field domain index =
     bnd (child dataset 0) (\<lambda>first.
     bnd (fetch (dom_fields first) field) (\<lambda>n_field.
       if association n_field = ''vertex'' then
         bnd (child dataset domain) (\<lambda>dm. vert_location dm index '''')
       else if association n_field = ''element'' then
         bnd (child dataset domain) (\<lambda>dm. element_location dm index '''')
       else Inl (AscentError (''Location for '' @ association n_field @ '' not implemented''))))"

definition field_min :: "(real list \<Rightarrow> real \<times> int) \<Rightarrow> dataset \<Rightarrow> string \<Rightarrow> error + extremum" where
  "field_min array_min dataset field =
     (case min_loop array_min 0 dataset field (DBL_MAX, - 1, - 1, - 1) of
        (min_value, domain, domain_id, index) \<Rightarrow>
          bnd (extremum_location dataset field domain index) (\<lambda>loc.
            Inr \<lparr>ext_value = min_value, ext_rank = 0, ext_domain_id = domain_id,
                 ext_position = loc\<rparr>))"

definition field_max :: "(real list \<Rightarrow> real \<times> int) \<Rightarrow> dataset \<Rightarrow> string \<Rightarrow> error + extremum" where
  "field_max array_max dataset field =
     (case max_loop array_max 0 dataset field (- DBL_MAX, - 1, - 1, - 1) of
        (max_value, domain, domain_id, index) \<Rightarrow>
          bnd (extremum_location dataset field domain index) (\<lambda>loc.
            Inr \<lparr>ext_value = max_value, ext_rank = 0, ext_domain_id = domain_id,
                 ext_position = loc\<rparr>))"

section \<open>The association of a field across workers\<close>

text \<open>Modelled from the spec: \<^verbatim>\<open>global_someone_agrees\<close> is declared in
  \<^verbatim>\<open>ascent_mpi_utils.hpp\<close>, which is not among the sources. The spec's contract:
  \<open>someoneAgrees(localBool)\<close> is true iff at least one worker's local value is true, and is
  the identity on a single worker. The argument is the list of the local values, one per
  worker; the result is what every worker receives.\<close>

definition global_someone_agrees :: "bool list \<Rightarrow> bool" where
  "global_someone_agrees votes = list_ex (\<lambda>vote. vote) votes"

text \<open>The loop of \<^verbatim>\<open>field_assoc\<close> on one worker; the state is \<open>(vertex, rank_has)\<close>.\<close>

fun assoc_loop :: "dataset \<Rightarrow> string \<Rightarrow> bool \<times> bool \<Rightarrow> bool \<times> bool" where
  "assoc_loop [] field_name (vertex, rank_has) = (vertex, rank_has)"
| "assoc_loop (dm # rest) field_name (vertex, rank_has) =
     (case map_of (dom_fields dm) field_name of
        None \<Rightarrow> assoc_loop rest field_name (vertex, rank_has)
      | Some n_field \<Rightarrow>
          assoc_loop rest field_name
            (if association n_field = ''element'' then False else vertex, True))"

text \<open>\<^verbatim>\<open>field_assoc\<close> as the workers of a fleet run it together: one dataset per worker.
  Every worker gets the same votes, hence the same result.\<close>

definition field_assoc :: "dataset list \<Rightarrow> string \<Rightarrow> error + string" where
  "field_assoc fleet field_name =
     (let locals = map (\<lambda>dataset. assoc_loop dataset field_name (True, False)) fleet;
          vertex_vote = global_someone_agrees (map (\<lambda>(vertex, rank_has). rank_has \<and> vertex) locals);
          element_vote = global_someone_agrees (map (\<lambda>(vertex, rank_has). rank_has \<and> \<not> vertex) locals)
      in if vertex_vote \<and> element_vote
         then Inl (AscentError (''There is disagreement about the association of field '' @ field_name))
         else Inr (if vertex_vote then ''vertex'' else ''element''))"

section \<open>Notions used to state the properties\<close>

text \<open>The field nodes of the domains of a dataset that hold the field, in domain order.\<close>

definition field_holders :: "dataset \<Rightarrow> string \<Rightarrow> field_node list" where
  "field_holders dataset field = List.map_filter (\<lambda>dm. map_of (dom_fields dm) field) dataset"

text \<open>The arithmetic mean of a non-empty list of points.\<close>

definition mean3 :: "real3 list \<Rightarrow> real3" where
  "mean3 ps =
     (sum_list (map fst ps) / real (length ps),
      sum_list (map (fst \<circ> snd) ps) / real (length ps),
      sum_list (map (snd \<circ> snd) ps) / real (length ps))"

text \<open>The result \<open>r\<close> of \<^verbatim>\<open>field_min\<close> or \<^verbatim>\<open>field_max\<close> for the final loop state \<open>st\<close>: the dataset
  has a first domain, that domain holds the field with association "vertex" or "element",
  the tracked domain index is a child of the dataset, and the position is the vertex or the
  element location in the tracked domain as the association of the first domain says.\<close>

definition located_by_first :: "dataset \<Rightarrow> string \<Rightarrow> real \<times> int \<times> int \<times> int \<Rightarrow> extremum \<Rightarrow> bool" where
  "located_by_first dataset field st r =
     (case st of (v, domain, domain_id, index) \<Rightarrow>
        (case dataset of
           [] \<Rightarrow> False
         | first # rest \<Rightarrow>
             (case map_of (dom_fields first) field of
                None \<Rightarrow> False
              | Some nf \<Rightarrow>
                  (association nf = ''vertex'' \<or> association nf = ''element'')
                  \<and> 0 \<le> domain \<and> domain < int (length dataset)
                  \<and> ext_value r = v \<and> ext_rank r = 0 \<and> ext_domain_id r = domain_id
                  \<and> (if association nf = ''vertex''
                      then vert_location (dataset ! nat domain) index ''''
                      else element_location (dataset ! nat domain) index '''')
                     = Inr (ext_position r))))"

section \<open>Example data\<close>

text \<open>A count histogram with an empty bin, its cdf, and a one-hot histogram.\<close>

definition hist_103 :: hist where
  "hist_103 = \<lparr>hist_bins = [1, 0, 3], min_val = 0, max_val = 3, num_bins = 3\<rparr>"

definition hist_one_hot :: hist where
  "hist_one_hot = \<lparr>hist_bins = [0, 0, 7, 0], min_val = 0, max_val = 4, num_bins = 4\<rparr>"

definition cdf_103 :: hist where
  "cdf_103 = \<lparr>hist_bins = [1/4, 1/4, 1], min_val = 0, max_val = 3, num_bins = 3\<rparr>"

text \<open>A uniform 3 x 3 mesh with origin \<open>(0, 0, 0)\<close> and spacing \<open>(1, 1, 1)\<close>, and a domain on it
  that holds the field \<open>f\<close>.\<close>

definition uniform_3x3 :: coordset_node where
  "uniform_3x3 =
     UniformSet \<lparr>dims_i = 3, dims_j = 3, dims_k = None,
                 origin_x = 0, origin_y = 0, origin_z = Some 0,
                 spacing_dx = 1, spacing_dy = 1, spacing_dz = Some 1\<rparr>"

definition uniform_topo :: topology_node where
  "uniform_topo =
     \<lparr>mesh_type = ''uniform'', coords_name = ''coords'',
      elements = \<lparr>shape = None, connectivity = None,
                  elem_dims_i = None, elem_dims_j = None, elem_dims_k = None\<rparr>\<rparr>"

definition uniform_domain :: "int \<Rightarrow> string \<Rightarrow> real list \<Rightarrow> domain_node" where
  "uniform_domain domain_id assoc vals =
     \<lparr>topologies = [(''mesh'', uniform_topo)],
      coordsets = [(''coords'', uniform_3x3)],
      dom_fields = [(''f'', \<lparr>association = assoc, field_topology = ''mesh'', field_values = vals\<rparr>)],
      state_domain_id = domain_id\<rparr>"

text \<open>The two-domain dataset of the spec's scenario.\<close>

definition two_domains :: dataset where
  "two_domains =
     [uniform_domain 0 ''vertex'' [0, 1, 2, 3, 4, 5, 6, 7, 8],
      uniform_domain 1 ''vertex'' [9]]"

text \<open>Modelled from the spec: \<^verbatim>\<open>array_histogram\<close> is declared in
  \<^verbatim>\<open>ascent_conduit_reductions.hpp\<close>, which is not among the sources. The spec's contract:
  bin counts \<open>[0..num_bins)\<close> over \<open>[min_val, max_val]\<close> with uniform bin width, values outside
  the range excluded. This instance (bins closed on the left) is used in examples only.\<close>

definition uniform_bins :: "real list \<Rightarrow> real \<Rightarrow> real \<Rightarrow> int \<Rightarrow> real list" where
  "uniform_bins xs mn mx n =
     map (\<lambda>b. real (length (filter (\<lambda>v. mn + real b * (mx - mn) / of_int n \<le> v
                                       \<and> v < mn + real (Suc b) * (mx - mn) / of_int n) xs)))
         [0..<nat n]"

text \<open>Two workers with one domain each: worker A holds \<open>f\<close> on the vertices, worker B on the
  elements.\<close>

definition worker_A :: dataset where
  "worker_A = [uniform_domain 0 ''vertex'' [0, 1, 2, 3, 4, 5, 6, 7, 8]]"

definition worker_B :: dataset where
  "worker_B = [uniform_domain 1 ''element'' [4, 1, 2, 3]]"

text \<open>An unstructured topology with one triangle on the vertices \<open>(3, 0, 0)\<close>, \<open>(0, 3, 0)\<close>,
  \<open>(0, 0, 3)\<close>.\<close>

definition tri_domain :: domain_node where
  "tri_domain =
     \<lparr>topologies =
        [(''mesh'', \<lparr>mesh_type = ''unstructured'', coords_name = ''coords'',
                     elements = \<lparr>shape = Some ''tri'', connectivity = Some [0, 1, 2],
                                 elem_dims_i = None, elem_dims_j = None, elem_dims_k = None\<rparr>\<rparr>)],
      coordsets =
        [(''coords'', ValuesSet \<lparr>values_x = [3, 0, 0], values_y = [0, 3, 0],
                                  values_z = Some [0, 0, 3]\<rparr>)],
      dom_fields = [],
      state_domain_id = 0\<rparr>"

text \<open>A structured topology with a single quadrilateral cell (\<open>elements/dims\<close> has \<open>i = 1\<close>,
  \<open>j = 1\<close> and no \<open>k\<close>) on the unit square.\<close>

definition quad_domain :: domain_node where
  "quad_domain =
     \<lparr>topologies =
        [(''mesh'', \<lparr>mesh_type = ''structured'', coords_name = ''coords'',
                     elements = \<lparr>shape = None, connectivity = None,
                                 elem_dims_i = Some 1, elem_dims_j = Some 1, elem_dims_k = None\<rparr>\<rparr>)],
      coordsets =
        [(''coords'', ValuesSet \<lparr>values_x = [0, 1, 0, 1], values_y = [0, 0, 1, 1],
                                  values_z = Some [0, 0, 0, 0]\<rparr>)],
      dom_fields = [],
      state_domain_id = 0\<rparr>"

text \<open>A structured topology with 2 x 1 x 1 hexahedral cells: 3 x 2 x 2 vertices, vertex
  \<open>x + 3 * y + 6 * z\<close> at \<open>(x, y, z)\<close>. The corners of cell 0 are the vertices
  0, 1, 4, 3 (bottom face) and 6, 7, 10, 9 (top face).\<close>

definition hex_domain :: domain_node where
  "hex_domain =
     \<lparr>topologies =
        [(''mesh'', \<lparr>mesh_type = ''structured'', coords_name = ''coords'',
                     elements = \<lparr>shape = None, connectivity = None,
                                 elem_dims_i = Some 2, elem_dims_j = Some 1, elem_dims_k = Some 1\<rparr>\<rparr>)],
      coordsets =
        [(''coords'', ValuesSet \<lparr>values_x = [0, 1, 2, 0, 1, 2, 0, 1, 2, 0, 1, 2],
                                  values_y = [0, 0, 0, 1, 1, 1, 0, 0, 0, 1, 1, 1],
                                  values_z = Some [0, 0, 0, 0, 0, 0, 1, 1, 1, 1, 1, 1]\<rparr>)],
      dom_fields = [],
      state_domain_id = 0\<rparr>"

text \<open>Modelled from the spec: \<^verbatim>\<open>array_min\<close> and \<^verbatim>\<open>array_max\<close> are declared in
  \<^verbatim>\<open>ascent_conduit_reductions.hpp\<close>, which is not among the sources. The spec's contract:
  \<open>{extremumValue, extremumIndex}\<close>, the index being the position within the array. These
  instances (the first position of the extremum; the start value of the caller and index
  \<open>-1\<close> on an empty array) are used in examples only.\<close>

fun min_scan :: "real \<times> int \<Rightarrow> int \<Rightarrow> real list \<Rightarrow> real \<times> int" where
  "min_scan best i [] = best"
| "min_scan (m, mi) i (x # xs) = min_scan (if x < m then (x, i) else (m, mi)) (i + 1) xs"

definition first_min :: "real list \<Rightarrow> real \<times> int" where
  "first_min xs = (case xs of [] \<Rightarrow> (DBL_MAX, - 1) | x # rest \<Rightarrow> min_scan (x, 0) 1 rest)"

fun max_scan :: "real \<times> int \<Rightarrow> int \<Rightarrow> real list \<Rightarrow> real \<times> int" where
  "max_scan best i [] = best"
| "max_scan (m, mi) i (x # xs) = max_scan (if x > m then (x, i) else (m, mi)) (i + 1) xs"

definition first_max :: "real list \<Rightarrow> real \<times> int" where
  "first_max xs = (case xs of [] \<Rightarrow> (- DBL_MAX, - 1) | x # rest \<Rightarrow> max_scan (x, 0) 1 rest)"

text \<open>A dataset whose first domain holds \<open>f\<close> on the vertices and whose second domain holds
  it on the elements; the minimum and the maximum of \<open>f\<close> are in the second domain.\<close>

definition mixed_domains :: dataset where
  "mixed_domains =
     [uniform_domain 0 ''vertex'' [5, 6, 7, 8, 9, 10, 11, 12, 13],
      uniform_domain 1 ''element'' [4, 1, 20, 3]]"

section \<open>Properties of the distribution operations\<close>

declare cdf_scan.simps [simp del]

lemma bnd_Inr [simp]: "bnd (Inr x) f = f x"
  by (simp add: bnd_def)

lemma bnd_Inl [simp]: "bnd (Inl e) f = Inl e"
  by (simp add: bnd_def)

lemma bnd_eq_Inr: "bnd m f = Inr y \<longleftrightarrow> (\<exists>x. m = Inr x \<and> f x = Inr y)"
  by (cases m) simp_all

lemma cdf_scan_Inr:
  "cdf_scan cs v k = Inr b \<Longrightarrow>
     k \<le> b \<and> b < length cs \<and> v \<le> cs ! b \<and> (\<forall>m. k \<le> m \<and> m < b \<longrightarrow> cs ! m < v)"
proof (induction cs v k rule: cdf_scan.induct)
  case (1 cs v k)
  show ?case
  proof (cases "length cs \<le> k")
    case True
    with "1.prems" show ?thesis by (simp add: cdf_scan.simps [of cs v k])
  next
    case inside: False
    show ?thesis
    proof (cases "cs ! k < v")
      case True
      with inside "1.prems" have "cdf_scan cs v (Suc k) = Inr b"
        by (simp add: cdf_scan.simps [of cs v k])
      with "1.IH" inside True
      have *: "Suc k \<le> b \<and> b < length cs \<and> v \<le> cs ! b \<and> (\<forall>m. Suc k \<le> m \<and> m < b \<longrightarrow> cs ! m < v)"
        by simp
      have "cs ! m < v" if "k \<le> m" "m < b" for m
        using that * True by (cases "m = k") auto
      with * show ?thesis by auto
    next
      case False
      with inside "1.prems" have "b = k" by (simp add: cdf_scan.simps [of cs v k])
      with inside False show ?thesis by auto
    qed
  qed
qed

lemma cdf_scan_Inl:
  "cdf_scan cs v k = Inl e \<Longrightarrow> e = OutOfBounds \<and> (\<forall>m. k \<le> m \<and> m < length cs \<longrightarrow> cs ! m < v)"
proof (induction cs v k rule: cdf_scan.induct)
  case (1 cs v k)
  show ?case
  proof (cases "length cs \<le> k")
    case True
    with "1.prems" show ?thesis by (simp add: cdf_scan.simps [of cs v k])
  next
    case inside: False
    show ?thesis
    proof (cases "cs ! k < v")
      case True
      with inside "1.prems" have "cdf_scan cs v (Suc k) = Inl e"
        by (simp add: cdf_scan.simps [of cs v k])
      with "1.IH" inside True
      have *: "e = OutOfBounds \<and> (\<forall>m. Suc k \<le> m \<and> m < length cs \<longrightarrow> cs ! m < v)"
        by simp
      have "cs ! m < v" if "k \<le> m" "m < length cs" for m
        using that * True by (cases "m = k") auto
      with * show ?thesis by auto
    next
      case False
      with inside "1.prems" show ?thesis by (simp add: cdf_scan.simps [of cs v k])
    qed
  qed
qed

lemma cdf_scan_covered:
  assumes "m < length cs" "v \<le> cs ! m"
  shows "\<exists>b. cdf_scan cs v 0 = Inr b \<and> b \<le> m \<and> v \<le> cs ! b \<and> (\<forall>k<b. cs ! k < v)"
proof (cases "cdf_scan cs v 0")
  case (Inl e)
  from cdf_scan_Inl [OF Inl] assms show ?thesis by force
next
  case (Inr b)
  from cdf_scan_Inr [OF Inr] have *: "b < length cs" "v \<le> cs ! b" "\<forall>k<b. cs ! k < v"
    by auto
  have "b \<le> m"
  proof (rule ccontr)
    assume "\<not> b \<le> m"
    then have "m < b" by simp
    with *(3) have "cs ! m < v" by blast
    with assms show False by simp
  qed
  with Inr * show ?thesis by simp
qed

lemma sorted_last_max: "sorted cs \<Longrightarrow> m < length cs \<Longrightarrow> cs ! m \<le> (last cs :: real)"
  by (cases "cs = []") (simp_all add: last_conv_nth sorted_nth_mono)

lemma cdf_scan_past_end:
  assumes "sorted cs" "cs = [] \<or> last cs < v"
  shows "cdf_scan cs v 0 = Inl OutOfBounds"
proof (cases "cdf_scan cs v 0")
  case (Inl e)
  with cdf_scan_Inl [OF Inl] show ?thesis by simp
next
  case (Inr b)
  from cdf_scan_Inr [OF Inr] have "b < length cs" "v \<le> cs ! b" by auto
  with assms sorted_last_max [of cs b] show ?thesis by force
qed


lemma length_cdf_loop [simp]: "length (cdf_loop s r xs) = length xs"
  by (induction xs arbitrary: r) simp_all

lemma cdf_loop_nth:
  "k < length xs \<Longrightarrow> cdf_loop s r xs ! k = r + (\<Sum>i\<le>k. xs ! i / s)"
proof (induction xs arbitrary: r k)
  case Nil
  then show ?case by simp
next
  case (Cons x xs)
  show ?case
  proof (cases k)
    case 0
    then show ?thesis by simp
  next
    case (Suc k')
    with Cons.prems have "k' < length xs" by simp
    from Cons.IH [OF this, of "r + x / s"] Suc show ?thesis
      by (simp add: sum.atMost_Suc_shift del: sum.atMost_Suc)
  qed
qed

lemma cdf_loop_lower: "\<forall>x\<in>set xs. 0 \<le> x / s \<Longrightarrow> y \<in> set (cdf_loop s r xs) \<Longrightarrow> r \<le> y"
proof (induction xs arbitrary: r)
  case Nil
  then show ?case by simp
next
  case (Cons x xs)
  from Cons.prems(1) have x: "0 \<le> x / s" and xs: "\<forall>x\<in>set xs. 0 \<le> x / s" by simp_all
  from Cons.prems(2) consider "y = r + x / s" | "y \<in> set (cdf_loop s (r + x / s) xs)" by auto
  then show ?case
  proof cases
    case 1
    with x show ?thesis by simp
  next
    case 2
    from Cons.IH [OF xs 2] x show ?thesis by simp
  qed
qed

lemma cdf_loop_sorted: "\<forall>x\<in>set xs. 0 \<le> x / s \<Longrightarrow> sorted (cdf_loop s r xs)"
proof (induction xs arbitrary: r)
  case Nil
  then show ?case by simp
next
  case (Cons x xs)
  from Cons.prems have xs: "\<forall>x\<in>set xs. 0 \<le> x / s" by simp
  from Cons.IH [OF xs] cdf_loop_lower [OF xs] show ?case by simp
qed

lemma cdf_loop_last: "xs \<noteq> [] \<Longrightarrow> last (cdf_loop s r xs) = r + sum_list xs / s"
proof (induction xs arbitrary: r)
  case Nil
  then show ?case by simp
next
  case (Cons x xs)
  show ?case
  proof (cases "xs = []")
    case True
    then show ?thesis by simp
  next
    case False
    then have "cdf_loop s (r + x / s) xs \<noteq> []" by (cases xs) simp_all
    with Cons.IH [OF False, of "r + x / s"] show ?thesis
      by (simp add: add_divide_distrib)
  qed
qed

lemma sum_list_pdf: "sum_list (map (\<lambda>x. x / s) xs) = sum_list xs / (s::real)"
  by (induction xs) (simp_all add: add_divide_distrib)

lemma loop_bins_wf: "num_bins h = int (length (hist_bins h)) \<Longrightarrow> loop_bins h = Inr (hist_bins h)"
  by (simp add: loop_bins_def)

text \<open>
  Claim C5. For a histogram with non-negative bin counts and a positive total,
  \<^verbatim>\<open>field_pdf\<close> returns the bins divided by the total and \<^verbatim>\<open>field_cdf\<close> returns the running
  prefix sums of the pdf: \<open>cdf[b]\<close> is the sum of \<open>bin[i] / total\<close> over \<open>i \<le> b\<close>. The cdf is
  non-decreasing, its last bin is 1, and the pdf bins sum to 1. (Doubles are reals here, so
  the two sums are exactly 1; the histogram node is well formed: \<open>num_bins\<close> is the length of
  the bin array.)
\<close>

theorem field_cdf_prefix_sums:
  assumes wf: "num_bins h = int (length (hist_bins h))"
    and nonneg: "\<forall>x\<in>set (hist_bins h). 0 \<le> x"
    and total: "0 < sum_list (hist_bins h)"
  shows "\<exists>pdf cdf. field_pdf h = Inr pdf \<and> field_cdf h = Inr cdf
      \<and> length (hist_bins pdf) = length (hist_bins h)
      \<and> length (hist_bins cdf) = length (hist_bins h)
      \<and> (\<forall>b<length (hist_bins h). hist_bins pdf ! b = hist_bins h ! b / sum_list (hist_bins h))
      \<and> (\<forall>b<length (hist_bins h).
            hist_bins cdf ! b = (\<Sum>i\<le>b. hist_bins h ! i / sum_list (hist_bins h)))
      \<and> sorted (hist_bins cdf)
      \<and> last (hist_bins cdf) = 1
      \<and> sum_list (hist_bins pdf) = 1"
proof -
  let ?bs = "hist_bins h"
  let ?s = "sum_list ?bs"
  let ?pdf = "\<lparr>hist_bins = map (\<lambda>x. x / ?s) ?bs,
                 min_val = min_val h, max_val = max_val h, num_bins = num_bins h\<rparr>"
  let ?cdf = "\<lparr>hist_bins = cdf_loop ?s 0 ?bs,
                 min_val = min_val h, max_val = max_val h, num_bins = num_bins h\<rparr>"
  from total have ne: "?bs \<noteq> []" by auto
  from wf have nb: "\<not> num_bins h < 0" by simp
  have pdf: "field_pdf h = Inr ?pdf"
    using total nb by (simp add: field_pdf_def array_sum_def loop_bins_wf [OF wf])
  have cdf: "field_cdf h = Inr ?cdf"
    using total nb by (simp add: field_cdf_def array_sum_def loop_bins_wf [OF wf])
  have q: "\<forall>x\<in>set ?bs. 0 \<le> x / ?s"
    using nonneg total by simp
  have nth: "\<forall>b<length ?bs. hist_bins ?cdf ! b = (\<Sum>i\<le>b. ?bs ! i / ?s)"
    by (simp add: cdf_loop_nth)
  have srt: "sorted (hist_bins ?cdf)"
    using cdf_loop_sorted [OF q] by simp
  have lst: "last (hist_bins ?cdf) = 1"
    using cdf_loop_last [OF ne, of ?s 0] total by simp
  have one: "sum_list (hist_bins ?pdf) = 1"
    using total by (simp add: sum_list_pdf)
  have pn: "\<forall>b<length ?bs. hist_bins ?pdf ! b = ?bs ! b / ?s"
    by simp
  from pdf cdf nth srt lst one pn show ?thesis
    by (intro exI [of _ ?pdf] exI [of _ ?cdf]) simp
qed

theorem field_cdf_prefix_sums_witness:
  "num_bins hist_103 = int (length (hist_bins hist_103))
   \<and> 0 < sum_list (hist_bins hist_103)
   \<and> (\<exists>pdf cdf. field_pdf hist_103 = Inr pdf \<and> field_cdf hist_103 = Inr cdf
        \<and> sorted (hist_bins cdf) \<and> last (hist_bins cdf) = 1 \<and> sum_list (hist_bins pdf) = 1)"
proof -
  have wf: "num_bins hist_103 = int (length (hist_bins hist_103))"
    by (simp add: hist_103_def)
  have nonneg: "\<forall>x\<in>set (hist_bins hist_103). 0 \<le> x"
    by (simp add: hist_103_def)
  have total: "0 < sum_list (hist_bins hist_103)"
    by (simp add: hist_103_def)
  from field_cdf_prefix_sums [OF wf nonneg total] wf total show ?thesis
    by blast
qed

lemma field_cdf_hist_103: "field_cdf hist_103 = Inr cdf_103"
  by (simp add: field_cdf_def hist_103_def cdf_103_def array_sum_def loop_bins_def)


lemma entropy_loop_sum:
  assumes "\<forall>x\<in>set xs. x = 0 \<or> (s \<noteq> 0 \<and> 0 \<le> x / s)"
  shows "entropy_loop s e xs =
           Inr (e + (\<Sum>x\<leftarrow>xs. if x = 0 then 0 else - (x / s) * ln (x / s)))"
  using assms
proof (induction xs arbitrary: e)
  case Nil
  then show ?case by simp
next
  case (Cons x xs)
  from Cons.prems have xs: "\<forall>x\<in>set xs. x = 0 \<or> (s \<noteq> 0 \<and> 0 \<le> x / s)"
    and x: "x = 0 \<or> (s \<noteq> 0 \<and> 0 \<le> x / s)" by simp_all
  show ?case
  proof (cases "x = 0")
    case True
    then show ?thesis
      by (simp add: entropy_step_def Cons.IH [OF xs])
  next
    case False
    with x have "s \<noteq> 0" "\<not> x / s < 0" by auto
    with False show ?thesis
      by (simp add: entropy_step_def Cons.IH [OF xs] algebra_simps)
  qed
qed

lemma nonneg_bins_ratio:
  assumes "\<forall>x\<in>set xs. (0::real) \<le> x" "x \<in> set xs" "x \<noteq> 0"
  shows "sum_list xs \<noteq> 0 \<and> 0 \<le> x / sum_list xs"
proof -
  from assms have "0 < x" by force
  moreover from assms(1,2) have "x \<le> sum_list xs"
    by (simp add: member_le_sum_list)
  ultimately show ?thesis by simp
qed

lemma entropy_loop_zeros: "entropy_loop s e (replicate n 0) = Inr e"
  by (induction n) (simp_all add: entropy_step_def)

lemma entropy_loop_append:
  "entropy_loop s e (xs @ ys) = bnd (entropy_loop s e xs) (\<lambda>e'. entropy_loop s e' ys)"
proof (induction xs arbitrary: e)
  case Nil
  then show ?case by simp
next
  case (Cons x xs)
  then show ?case by (cases "entropy_step s e x") simp_all
qed

lemma sum_list_neg_terms:
  "(\<Sum>x\<leftarrow>xs. if x = 0 then 0 else - f x * g x) = - (\<Sum>x\<leftarrow>xs. if x = 0 then 0 else f x * (g x :: real))"
  by (induction xs) simp_all

text \<open>
  Claim C7. \<^verbatim>\<open>field_entropy\<close> computes \<open>- \<Sum> p\<^sub>i * ln p\<^sub>i\<close> with \<open>p\<^sub>i = bin[i] / total\<close>, where a bin
  with count zero contributes exactly 0 and the result is a number (never \<open>NonFinite\<close>) for
  non-negative counts; the entropy of a histogram with all of its mass in a single bin is
  exactly 0.
\<close>

theorem field_entropy_formula:
  "(num_bins h = int (length (hist_bins h)) \<and> (\<forall>x\<in>set (hist_bins h). 0 \<le> x) \<longrightarrow>
      field_entropy h =
        Inr (- (\<Sum>x\<leftarrow>hist_bins h.
                  if x = 0 then 0
                  else x / sum_list (hist_bins h) * ln (x / sum_list (hist_bins h)))))
   \<and> (num_bins h = int (length (hist_bins h))
        \<and> hist_bins h = replicate n 0 @ [c] @ replicate m 0 \<longrightarrow>
      field_entropy h = Inr 0)"
proof (intro conjI impI)
  assume a: "num_bins h = int (length (hist_bins h)) \<and> (\<forall>x\<in>set (hist_bins h). 0 \<le> x)"
  let ?bs = "hist_bins h"
  let ?s = "sum_list ?bs"
  from a have "\<forall>x\<in>set ?bs. x = 0 \<or> (?s \<noteq> 0 \<and> 0 \<le> x / ?s)"
    using nonneg_bins_ratio [of ?bs] by blast
  from entropy_loop_sum [OF this, of 0]
  have "entropy_loop ?s 0 ?bs = Inr (\<Sum>x\<leftarrow>?bs. if x = 0 then 0 else - (x / ?s) * ln (x / ?s))"
    by simp
  also have "(\<Sum>x\<leftarrow>?bs. if x = 0 then 0 else - (x / ?s) * ln (x / ?s))
      = - (\<Sum>x\<leftarrow>?bs. if x = 0 then 0 else x / ?s * ln (x / ?s))"
    by (rule sum_list_neg_terms)
  finally show "field_entropy h =
        Inr (- (\<Sum>x\<leftarrow>?bs. if x = 0 then 0 else x / ?s * ln (x / ?s)))"
    using a by (simp add: field_entropy_def array_sum_def loop_bins_wf)
next
  assume a: "num_bins h = int (length (hist_bins h))
        \<and> hist_bins h = replicate n 0 @ [c] @ replicate m 0"
  then have eq: "hist_bins h = replicate n 0 @ [c] @ replicate m 0" by simp
  have s: "sum_list (hist_bins h) = c"
    unfolding eq by (simp add: sum_list_replicate)
  have step: "entropy_step c 0 c = Inr 0"
    by (simp add: entropy_step_def)
  have l: "entropy_loop c 0 (hist_bins h) = Inr 0"
    unfolding eq by (simp add: entropy_loop_append entropy_loop_zeros step)
  have "field_entropy h = entropy_loop (sum_list (hist_bins h)) 0 (hist_bins h)"
    using a by (simp add: field_entropy_def array_sum_def loop_bins_wf)
  with s l show "field_entropy h = Inr 0"
    by simp
qed

theorem field_entropy_formula_witness:
  "num_bins hist_one_hot = int (length (hist_bins hist_one_hot))
   \<and> hist_bins hist_one_hot = replicate 2 0 @ [7] @ replicate 1 0
   \<and> field_entropy hist_one_hot = Inr 0
   \<and> field_entropy hist_103 = Inr (- (1 / 4 * ln (1 / 4) + 3 / 4 * ln (3 / 4)))"
proof -
  have wf: "num_bins hist_one_hot = int (length (hist_bins hist_one_hot))"
    by (simp add: hist_one_hot_def)
  have shape: "hist_bins hist_one_hot = replicate 2 0 @ [7] @ replicate 1 0"
    by (simp add: hist_one_hot_def numeral_2_eq_2)
  have wf': "num_bins hist_103 = int (length (hist_bins hist_103))
      \<and> (\<forall>x\<in>set (hist_bins hist_103). 0 \<le> x)"
    by (simp add: hist_103_def)
  from field_entropy_formula [of hist_one_hot 2 7 1] wf shape
  have "field_entropy hist_one_hot = Inr 0" by blast
  moreover from field_entropy_formula [of hist_103] wf'
  have "field_entropy hist_103 = Inr (- (1 / 4 * ln (1 / 4) + 3 / 4 * ln (3 / 4)))"
    by (simp add: hist_103_def)
  ultimately show ?thesis using wf shape by simp
qed


lemma quantile_bin_covered:
  assumes "m < length cs" "v \<le> cs ! m"
  shows "\<exists>b\<le>m. cdf_scan cs v 0 = Inr b \<and> v \<le> cs ! b \<and> (\<forall>k<b. cs ! k < v)
           \<and> quantile_bin cs v = Inr (if cs ! b = v then int b else int b - 1)"
proof -
  from cdf_scan_covered [OF assms] obtain b where
    b: "cdf_scan cs v 0 = Inr b" "b \<le> m" "v \<le> cs ! b" "\<forall>k<b. cs ! k < v"
    by blast
  then have "quantile_bin cs v = Inr (if cs ! b = v then int b else int b - 1)"
    by (auto simp: quantile_bin_def)
  with b show ?thesis by blast
qed

lemma bin_j_width:
  "bin_j cdf bin = bin_i cdf bin + (max_val cdf - min_val cdf) / of_int (num_bins cdf)"
  by (simp add: bin_i_def bin_j_def distrib_right add_divide_distrib)

text \<open>
  Claim C1, as amended. For a probe value \<open>val\<close> covered by the cdf (some entry is at least
  \<open>val\<close>) the scan of \<^verbatim>\<open>quantile\<close> stops at the smallest index \<open>b\<close> with \<open>cdf[b] \<ge> val\<close>; the bin
  the function selects is \<open>b\<close> when \<open>cdf[b] = val\<close> and \<open>b - 1\<close> when \<open>cdf[b] > val\<close> (the
  decrement after the scan). With \<open>bin\<close> the selected bin, the boundaries are
  \<open>i = min_val + bin * (max_val - min_val) / num_bins\<close> and
  \<open>j = i + (max_val - min_val) / num_bins\<close>; interpolation "lower" returns \<open>i\<close> and "higher"
  returns \<open>j\<close>. In particular \<open>quantile(cdf, cdf[m], "lower")\<close> is the left boundary of bin \<open>m\<close>
  for every bin \<open>m\<close> whose cdf value is strictly above the cdf values of all earlier bins.
\<close>

theorem quantile_lower_boundary:
  assumes bins: "num_bins cdf \<noteq> 0"
    and covered: "m < length (hist_bins cdf)" "val \<le> hist_bins cdf ! m"
  shows "\<exists>b\<le>m. cdf_scan (hist_bins cdf) val 0 = Inr b
      \<and> val \<le> hist_bins cdf ! b \<and> (\<forall>k<b. hist_bins cdf ! k < val)
      \<and> (\<exists>bin. bin = (if hist_bins cdf ! b = val then int b else int b - 1)
            \<and> quantile_bin (hist_bins cdf) val = Inr bin
            \<and> quantile cdf val ''lower'' =
                Inr (Some (min_val cdf
                           + of_int bin * (max_val cdf - min_val cdf) / of_int (num_bins cdf)))
            \<and> quantile cdf val ''higher'' =
                Inr (Some (min_val cdf
                           + of_int bin * (max_val cdf - min_val cdf) / of_int (num_bins cdf)
                           + (max_val cdf - min_val cdf) / of_int (num_bins cdf))))
      \<and> (val = hist_bins cdf ! m \<and> (\<forall>k<m. hist_bins cdf ! k < hist_bins cdf ! m) \<longrightarrow>
            b = m
            \<and> quantile cdf val ''lower'' =
                Inr (Some (min_val cdf
                           + of_int (int m) * (max_val cdf - min_val cdf) / of_int (num_bins cdf))))"
proof -
  let ?cs = "hist_bins cdf"
  from quantile_bin_covered [OF covered] obtain b where
    b: "b \<le> m" "cdf_scan ?cs val 0 = Inr b" "val \<le> ?cs ! b" "\<forall>k<b. ?cs ! k < val"
      "quantile_bin ?cs val = Inr (if ?cs ! b = val then int b else int b - 1)"
    by blast
  let ?bin = "if ?cs ! b = val then int b else int b - 1"
  have lower: "quantile cdf val ''lower'' = Inr (Some (bin_i cdf ?bin))"
    using bins b(5) by (simp add: quantile_def Let_def)
  have higher: "quantile cdf val ''higher'' = Inr (Some (bin_j cdf ?bin))"
    using bins b(5) by (simp add: quantile_def Let_def)
  have j: "bin_j cdf ?bin = bin_i cdf ?bin + (max_val cdf - min_val cdf) / of_int (num_bins cdf)"
    by (rule bin_j_width)
  have exact: "b = m \<and> ?bin = int m"
    if "val = ?cs ! m" "\<forall>k<m. ?cs ! k < ?cs ! m"
  proof -
    have "\<not> b < m"
    proof
      assume "b < m"
      with that have "?cs ! b < val" by simp
      with b(3) show False by simp
    qed
    with b(1) have "b = m" by simp
    with that show ?thesis by simp
  qed
  show ?thesis
  proof (intro exI [of _ b] conjI impI)
    show "\<exists>bin. bin = ?bin \<and> quantile_bin ?cs val = Inr bin
        \<and> quantile cdf val ''lower'' =
            Inr (Some (min_val cdf + of_int bin * (max_val cdf - min_val cdf) / of_int (num_bins cdf)))
        \<and> quantile cdf val ''higher'' =
            Inr (Some (min_val cdf + of_int bin * (max_val cdf - min_val cdf) / of_int (num_bins cdf)
                       + (max_val cdf - min_val cdf) / of_int (num_bins cdf)))"
      using b(5) lower higher j by (intro exI [of _ ?bin]) (simp add: bin_i_def)
  next
    assume "val = ?cs ! m \<and> (\<forall>k<m. ?cs ! k < ?cs ! m)"
    with exact show "b = m" by blast
  next
    assume a: "val = ?cs ! m \<and> (\<forall>k<m. ?cs ! k < ?cs ! m)"
    with exact have "?bin = int m" by blast
    with lower show "quantile cdf val ''lower'' =
        Inr (Some (min_val cdf + of_int (int m) * (max_val cdf - min_val cdf) / of_int (num_bins cdf)))"
      by (simp only: bin_i_def)
  qed (use b in simp_all)
qed

lemma cdf_scan_cdf_103_half: "cdf_scan [1/4, 1/4, 1] (1/2) 0 = Inr 2"
  by (simp add: cdf_scan.simps)

lemma cdf_scan_cdf_103_quarter: "cdf_scan [1/4, 1/4, 1] (1/4) 0 = Inr 0"
  by (simp add: cdf_scan.simps)

lemma cdf_scan_cdf_103_two: "cdf_scan [1/4, 1/4, 1] 2 0 = Inl OutOfBounds"
  by (simp add: cdf_scan.simps)

theorem quantile_lower_boundary_witness:
  "num_bins cdf_103 \<noteq> 0 \<and> 2 < length (hist_bins cdf_103) \<and> 1 \<le> hist_bins cdf_103 ! 2
   \<and> quantile cdf_103 1 ''lower'' = Inr (Some 2)"
proof -
  have h: "num_bins cdf_103 \<noteq> 0" "2 < length (hist_bins cdf_103)" "1 \<le> hist_bins cdf_103 ! 2"
    by (simp_all add: cdf_103_def)
  have "1 = hist_bins cdf_103 ! 2 \<and> (\<forall>k<2. hist_bins cdf_103 ! k < hist_bins cdf_103 ! 2)"
    by (simp add: cdf_103_def less_2_cases_iff)
  with quantile_lower_boundary [OF h]
  have "quantile cdf_103 1 ''lower'' =
      Inr (Some (min_val cdf_103
                 + of_int (int 2) * (max_val cdf_103 - min_val cdf_103) / of_int (num_bins cdf_103)))"
    by blast
  then have "quantile cdf_103 1 ''lower'' = Inr (Some 2)"
    by (simp add: cdf_103_def)
  with h show ?thesis by simp
qed

text \<open>
  Claim C1 as it was stated fails. On the cdf \<open>[1/4, 1/4, 1]\<close> of the counts \<open>[1, 0, 3]\<close> over
  \<open>[0, 3]\<close>: for \<open>val = 1/2\<close> the smallest bin with \<open>cdf[b] \<ge> val\<close> is 2 with left boundary 2,
  and "lower" returns 1; and for \<open>val = cdf[1]\<close> "lower" returns 0, the left boundary of
  bin 0, not of bin 1.
\<close>

theorem quantile_smallest_bin_counterexample:
  "\<not> (\<forall>cdf val b. num_bins cdf = int (length (hist_bins cdf)) \<and> b < length (hist_bins cdf)
          \<and> val \<le> hist_bins cdf ! b \<and> (\<forall>k<b. hist_bins cdf ! k < val) \<longrightarrow>
        quantile cdf val ''lower'' =
          Inr (Some (min_val cdf
                     + of_int (int b) * (max_val cdf - min_val cdf) / of_int (num_bins cdf))))
   \<and> \<not> (\<forall>b<length (hist_bins cdf_103).
          quantile cdf_103 (hist_bins cdf_103 ! b) ''lower'' =
            Inr (Some (min_val cdf_103
                       + of_int (int b) * (max_val cdf_103 - min_val cdf_103)
                           / of_int (num_bins cdf_103))))"
proof (intro conjI notI)
  assume a: "\<forall>cdf val b. num_bins cdf = int (length (hist_bins cdf)) \<and> b < length (hist_bins cdf)
          \<and> val \<le> hist_bins cdf ! b \<and> (\<forall>k<b. hist_bins cdf ! k < val) \<longrightarrow>
        quantile cdf val ''lower'' =
          Inr (Some (min_val cdf
                     + of_int (int b) * (max_val cdf - min_val cdf) / of_int (num_bins cdf)))"
  have "num_bins cdf_103 = int (length (hist_bins cdf_103)) \<and> 2 < length (hist_bins cdf_103)
          \<and> 1/2 \<le> hist_bins cdf_103 ! 2 \<and> (\<forall>k<2. hist_bins cdf_103 ! k < 1/2)"
    by (simp add: cdf_103_def less_2_cases_iff)
  with a have "quantile cdf_103 (1/2) ''lower'' =
      Inr (Some (min_val cdf_103
                 + of_int (int 2) * (max_val cdf_103 - min_val cdf_103) / of_int (num_bins cdf_103)))"
    by blast
  moreover have "quantile cdf_103 (1/2) ''lower'' = Inr (Some 1)"
    by (simp add: quantile_def quantile_bin_def cdf_103_def cdf_scan_cdf_103_half bin_i_def)
  ultimately show False
    by (simp add: cdf_103_def)
next
  assume "\<forall>b<length (hist_bins cdf_103).
          quantile cdf_103 (hist_bins cdf_103 ! b) ''lower'' =
            Inr (Some (min_val cdf_103
                       + of_int (int b) * (max_val cdf_103 - min_val cdf_103)
                           / of_int (num_bins cdf_103)))"
  moreover have "1 < length (hist_bins cdf_103)" by (simp add: cdf_103_def)
  ultimately have "quantile cdf_103 (hist_bins cdf_103 ! 1) ''lower'' =
      Inr (Some (min_val cdf_103
                 + of_int (int 1) * (max_val cdf_103 - min_val cdf_103) / of_int (num_bins cdf_103)))"
    by blast
  then have "quantile cdf_103 (1/4) ''lower'' = Inr (Some 1)"
    by (simp add: cdf_103_def)
  moreover have "quantile cdf_103 (1/4) ''lower'' = Inr (Some 0)"
    by (simp add: quantile_def quantile_bin_def cdf_103_def cdf_scan_cdf_103_quarter bin_i_def)
  ultimately show False by simp
qed

text \<open>
  Claim C6. The scan \<^verbatim>\<open>for(; cdf_bins[bin] < val; ++bin)\<close> of \<^verbatim>\<open>quantile\<close> has no bound on \<open>bin\<close>.
  On a cdf whose last entry is at least \<open>val\<close> it stops at an index below \<open>num_bins\<close>, having
  read no entry outside the array. On a cdf (a non-decreasing array) whose last entry is
  below \<open>val\<close>, and on an empty one, the scan reads past the end of the array, and so does
  \<^verbatim>\<open>quantile\<close> with any interpolation. So on a non-empty cdf the read past the end is
  excluded exactly by \<open>val \<le> cdf[num_bins - 1]\<close>.
\<close>

theorem quantile_scan_bound:
  assumes wf: "num_bins cdf = int (length (hist_bins cdf))"
  shows "(hist_bins cdf \<noteq> [] \<and> val \<le> last (hist_bins cdf) \<longrightarrow>
            (\<exists>bin. cdf_scan (hist_bins cdf) val 0 = Inr bin \<and> int bin < num_bins cdf))
       \<and> (sorted (hist_bins cdf) \<and> (hist_bins cdf = [] \<or> last (hist_bins cdf) < val) \<longrightarrow>
            cdf_scan (hist_bins cdf) val 0 = Inl OutOfBounds
            \<and> quantile cdf val interpolation = Inl OutOfBounds)
       \<and> (sorted (hist_bins cdf) \<and> hist_bins cdf \<noteq> [] \<longrightarrow>
            (cdf_scan (hist_bins cdf) val 0 \<noteq> Inl OutOfBounds) = (val \<le> last (hist_bins cdf)))"
proof -
  let ?cs = "hist_bins cdf"
  have inside: "\<exists>bin. cdf_scan ?cs val 0 = Inr bin \<and> int bin < num_bins cdf"
    if "?cs \<noteq> []" "val \<le> last ?cs"
  proof -
    from that have "length ?cs - 1 < length ?cs" "val \<le> ?cs ! (length ?cs - 1)"
      by (simp_all add: last_conv_nth)
    from cdf_scan_covered [OF this] obtain b where
      "cdf_scan ?cs val 0 = Inr b" "b \<le> length ?cs - 1" by blast
    moreover from this(2) that(1) have "int b < int (length ?cs)" by (cases ?cs) simp_all
    ultimately show ?thesis using wf by simp
  qed
  have past: "cdf_scan ?cs val 0 = Inl OutOfBounds"
    if "sorted ?cs" "?cs = [] \<or> last ?cs < val"
    using that by (rule cdf_scan_past_end)
  have q: "quantile cdf val interpolation = Inl OutOfBounds"
    if "cdf_scan ?cs val 0 = Inl OutOfBounds"
    using that by (simp add: quantile_def quantile_bin_def)
  from inside past q show ?thesis by force
qed

theorem quantile_scan_bound_witness:
  "num_bins cdf_103 = int (length (hist_bins cdf_103))
   \<and> sorted (hist_bins cdf_103) \<and> hist_bins cdf_103 \<noteq> []
   \<and> 1/2 \<le> last (hist_bins cdf_103) \<and> last (hist_bins cdf_103) < 2
   \<and> (\<exists>bin. cdf_scan (hist_bins cdf_103) (1/2) 0 = Inr bin \<and> int bin < num_bins cdf_103)
   \<and> quantile cdf_103 2 ''lower'' = Inl OutOfBounds"
proof -
  have wf: "num_bins cdf_103 = int (length (hist_bins cdf_103))"
    by (simp add: cdf_103_def)
  have h: "sorted (hist_bins cdf_103)" "hist_bins cdf_103 \<noteq> []"
    "1/2 \<le> last (hist_bins cdf_103)" "last (hist_bins cdf_103) < 2"
    by (simp_all add: cdf_103_def)
  from quantile_scan_bound [OF wf, of "1/2"] h
  have "\<exists>bin. cdf_scan (hist_bins cdf_103) (1/2) 0 = Inr bin \<and> int bin < num_bins cdf_103"
    by blast
  moreover from quantile_scan_bound [OF wf, of 2 "''lower''"] h
  have "quantile cdf_103 2 ''lower'' = Inl OutOfBounds"
    by blast
  ultimately show ?thesis using wf h by simp
qed

section \<open>Properties of the index arithmetic\<close>


lemma sdiv_nonneg: "0 \<le> a \<Longrightarrow> 0 < b \<Longrightarrow> a sdiv b = a div (b::int)"
  by (simp add: signed_divide_int_def sgn_if)

lemma smod_nonneg: "0 \<le> a \<Longrightarrow> 0 < b \<Longrightarrow> a smod b = a mod (b::int)"
  by (simp add: signed_modulo_int_def sgn_if)

lemma c_div_nonneg:
  assumes "0 \<le> a" "in_int a" "0 < b"
  shows "c_div a b = Inr (a div b)"
proof -
  have "0 \<le> a div b" using assms by (simp add: pos_imp_zdiv_nonneg_iff)
  moreover have "a div b \<le> a" using zdiv_mono2 [of a 1 b] assms by simp
  ultimately have "in_int (a div b)" using assms(2) by (simp add: in_int_def INT_MIN_def)
  with assms show ?thesis by (simp add: c_div_def c_int_def sdiv_nonneg)
qed

lemma c_mod_nonneg:
  assumes "0 \<le> a" "0 < b"
  shows "c_mod a b = Inr (a mod b)"
  using assms by (simp add: c_mod_def smod_nonneg INT_MIN_def)

lemma index_2d:
  assumes "0 < dx" "0 \<le> i" "i < dx" "0 \<le> j"
  shows "(i + j * dx) mod dx = i" "(i + j * dx) div dx = (j::int)"
  using assms by simp_all

lemma index_3d:
  assumes "0 < dx" "0 < dy" "0 \<le> i" "i < dx" "0 \<le> j" "j < dy" "0 \<le> k"
  shows "(i + j * dx + k * dx * dy) mod dx = i"
    and "((i + j * dx + k * dx * dy) div dx) mod dy = j"
    and "(i + j * dx + k * dx * dy) div (dx * dy) = (k::int)"
proof -
  have e: "i + j * dx + k * dx * dy = i + (j + k * dy) * dx"
    by (simp add: algebra_simps)
  show "(i + j * dx + k * dx * dy) mod dx = i"
    unfolding e using assms by simp
  have d: "(i + j * dx + k * dx * dy) div dx = j + k * dy"
    unfolding e using assms by simp
  show "((i + j * dx + k * dx * dy) div dx) mod dy = j"
    unfolding d using assms by simp
  have "(i + j * dx + k * dx * dy) div (dx * dy) = ((i + j * dx + k * dx * dy) div dx) div dy"
    using assms by (simp add: zdiv_zmult2_eq)
  also have "\<dots> = k" unfolding d using assms by simp
  finally show "(i + j * dx + k * dx * dy) div (dx * dy) = k" .
qed

text \<open>
  Claim C9, as amended. For \<open>dims.x > 0\<close>, \<open>dims.y > 0\<close> and a valid \<open>(i, j, k)\<close>
  (\<open>0 \<le> i < dims.x\<close>, \<open>0 \<le> j < dims.y\<close>, \<open>0 \<le> k < dims.z\<close>): when \<open>dims.x * dims.y\<close> and the
  linear index \<open>i + j * dims.x + k * dims.x * dims.y\<close> are values of an \<^verbatim>\<open>int\<close>,
  \<^verbatim>\<open>logical_index_3d\<close> applied to that index returns \<open>(i, j, k)\<close>; and when \<open>i + j * dims.x\<close> is a
  value of an \<^verbatim>\<open>int\<close>, \<^verbatim>\<open>logical_index_2d\<close> applied to it returns \<open>(i, j)\<close> and leaves \<^verbatim>\<open>idx[2]\<close> as
  it was.
\<close>

theorem logical_index_round_trip:
  assumes dims: "0 < dx" "0 < dy"
    and valid: "0 \<le> i" "i < dx" "0 \<le> j" "j < dy"
  shows "(0 \<le> k \<and> k < dz \<and> in_int (dx * dy) \<and> in_int (i + j * dx + k * dx * dy) \<longrightarrow>
            logical_index_3d idx (i + j * dx + k * dx * dy) (dx, dy, dz) = Inr (i, j, k))
       \<and> (in_int (i + j * dx) \<longrightarrow>
            logical_index_2d idx (i + j * dx) (dx, dy, dz) = Inr (i, j, snd (snd idx)))"
proof (intro conjI impI)
  obtain idx0 idx1 idx2 where idx: "idx = (idx0, idx1, idx2)" by (cases idx) auto
  {
    assume k: "0 \<le> k \<and> k < dz \<and> in_int (dx * dy) \<and> in_int (i + j * dx + k * dx * dy)"
    let ?v = "i + j * dx + k * dx * dy"
    have v0: "0 \<le> ?v" using dims valid k by simp
    have p: "0 < dx * dy" using dims by simp
    have q0: "0 \<le> ?v div dx" using v0 dims by (simp add: pos_imp_zdiv_nonneg_iff)
    from k have k0: "0 \<le> k" by simp
    show "logical_index_3d idx ?v (dx, dy, dz) = Inr (i, j, k)"
      using index_3d [OF dims valid k0] k dims v0 p q0
      by (simp add: idx c_div_nonneg c_mod_nonneg c_mul_def c_int_def)
  }
  {
    assume wf: "in_int (i + j * dx)"
    let ?w = "i + j * dx"
    have w0: "0 \<le> ?w" using dims valid by simp
    show "logical_index_2d idx ?w (dx, dy, dz) = Inr (i, j, snd (snd idx))"
      using index_2d [OF dims(1) valid(1-3)] wf dims w0
      by (simp add: idx c_div_nonneg c_mod_nonneg)
  }
qed

theorem logical_index_round_trip_witness:
  "in_int (3 * 4) \<and> in_int (2 + 1 * 3 + 1 * 3 * 4) \<and> in_int (2 + 1 * 3)
   \<and> logical_index_3d (0, 0, 0) 17 (3, 4, 2) = Inr (2, 1, 1)
   \<and> logical_index_2d (0, 0, 0) 5 (3, 4, 2) = Inr (2, 1, 0)"
proof -
  have fits: "in_int (3 * 4)" "in_int (2 + 1 * 3 + 1 * 3 * 4)" "in_int (2 + 1 * 3)"
    by (simp_all add: in_int_def INT_MIN_def INT_MAX_def)
  have "(0::int) < 3" "(0::int) < 4" "(0::int) \<le> 2" "(2::int) < 3" "(0::int) \<le> 1" "(1::int) < 4"
    by simp_all
  from logical_index_round_trip [OF this, of 1 2 "(0, 0, 0)"] fits
  have "logical_index_3d (0, 0, 0) (2 + 1 * 3 + 1 * 3 * 4) (3, 4, 2) = Inr (2, 1, 1)
      \<and> logical_index_2d (0, 0, 0) (2 + 1 * 3) (3, 4, 2) = Inr (2, 1, snd (snd (0, 0, 0)))"
    by simp
  with fits show ?thesis by simp
qed

text \<open>
  Claim C9 as it was stated, for every \<open>dims\<close>, fails: with \<open>dims = (65536, 65536, 1)\<close> the
  index \<open>(0, 0, 0)\<close> is valid and its linear index is 0, and \<^verbatim>\<open>logical_index_3d\<close> computes
  \<^verbatim>\<open>dims[0] * dims[1]\<close>, which is \<open>2^32\<close> and overflows the \<^verbatim>\<open>int\<close>.
\<close>

theorem logical_index_3d_overflow_counterexample:
  "\<not> (\<forall>idx dx dy dz i j k.
         in_int dx \<and> in_int dy \<and> in_int dz \<and> 0 < dx \<and> 0 < dy
         \<and> 0 \<le> i \<and> i < dx \<and> 0 \<le> j \<and> j < dy \<and> 0 \<le> k \<and> k < dz
         \<and> in_int (i + j * dx + k * dx * dy) \<longrightarrow>
         logical_index_3d idx (i + j * dx + k * dx * dy) (dx, dy, dz) = Inr (i, j, k))"
proof
  assume a: "\<forall>idx dx dy dz i j k.
         in_int dx \<and> in_int dy \<and> in_int dz \<and> 0 < dx \<and> 0 < dy
         \<and> 0 \<le> i \<and> i < dx \<and> 0 \<le> j \<and> j < dy \<and> 0 \<le> k \<and> k < dz
         \<and> in_int (i + j * dx + k * dx * dy) \<longrightarrow>
         logical_index_3d idx (i + j * dx + k * dx * dy) (dx, dy, dz) = Inr (i, j, k)"
  have "in_int 65536 \<and> in_int 65536 \<and> in_int 1 \<and> (0::int) < 65536 \<and> (0::int) < 65536
         \<and> (0::int) \<le> 0 \<and> (0::int) < 65536 \<and> (0::int) \<le> 0 \<and> (0::int) < 65536
         \<and> (0::int) \<le> 0 \<and> (0::int) < 1
         \<and> in_int (0 + 0 * 65536 + 0 * 65536 * 65536)"
    by (simp add: in_int_def INT_MIN_def INT_MAX_def)
  with a [rule_format, of 65536 65536 1 0 0 0 "(0, 0, 0)"]
  have "logical_index_3d (0, 0, 0) (0 + 0 * 65536 + 0 * 65536 * 65536) (65536, 65536, 1)
      = Inr (0, 0, 0)"
    by blast
  moreover have "logical_index_3d (0, 0, 0) 0 (65536, 65536, 1) = Inl SignedOverflow"
    by (simp add: bnd_def c_mod_def c_div_def c_mul_def c_int_def in_int_def INT_MIN_def INT_MAX_def)
  ultimately show False by simp
qed

section \<open>Properties of the reductions over a dataset\<close>


lemma field_holders_Nil [simp]: "field_holders [] field = []"
  by (simp add: field_holders_def)

lemma field_holders_Cons:
  "field_holders (dm # rest) field =
     (case map_of (dom_fields dm) field of
        None \<Rightarrow> field_holders rest field
      | Some n_field \<Rightarrow> n_field # field_holders rest field)"
  by (simp add: field_holders_def split: option.split)

lemma sum_loop_eq:
  "sum_loop dataset field (s, count) =
     (s + (\<Sum>n\<leftarrow>field_holders dataset field. sum_list (field_values n)),
      count + (\<Sum>n\<leftarrow>field_holders dataset field. int (length (field_values n))))"
proof (induction dataset arbitrary: s count)
  case Nil
  then show ?case by simp
next
  case (Cons dm rest)
  show ?case
  proof (cases "map_of (dom_fields dm) field")
    case None
    then show ?thesis by (simp add: Cons.IH field_holders_Cons)
  next
    case (Some n_field)
    then show ?thesis by (simp add: Cons.IH field_holders_Cons array_sum_def)
  qed
qed

text \<open>
  Claim C3. \<^verbatim>\<open>field_sum\<close> returns the sum of the values of the field over every domain that
  holds it, together with the number of those values; \<^verbatim>\<open>field_avg\<close> returns that sum divided
  by that count when the count is not zero, and has no value (the quotient is not a number)
  when it is zero. On the two-domain dataset of the scenario (\<open>[0, ..., 8]\<close> on domain 0,
  \<open>[9]\<close> on domain 1) \<^verbatim>\<open>field_sum\<close> returns 45 and 10 and \<^verbatim>\<open>field_avg\<close> returns 4.5: the witness
  below.
\<close>

theorem field_sum_avg:
  "field_sum dataset field =
     ((\<Sum>n\<leftarrow>field_holders dataset field. sum_list (field_values n)),
      (\<Sum>n\<leftarrow>field_holders dataset field. int (length (field_values n))))
   \<and> (snd (field_sum dataset field) \<noteq> 0 \<longrightarrow>
        field_avg dataset field
          = Inr (fst (field_sum dataset field) / of_int (snd (field_sum dataset field))))
   \<and> (snd (field_sum dataset field) = 0 \<longrightarrow> field_avg dataset field = Inl NonFinite)"
  by (simp add: field_sum_def field_avg_def sum_loop_eq)

lemma two_domains_holders:
  "field_holders two_domains ''f'' =
     [\<lparr>association = ''vertex'', field_topology = ''mesh'',
        field_values = [0, 1, 2, 3, 4, 5, 6, 7, 8]\<rparr>,
      \<lparr>association = ''vertex'', field_topology = ''mesh'', field_values = [9]\<rparr>]"
  by (simp add: two_domains_def uniform_domain_def field_holders_Cons)

theorem field_sum_avg_witness:
  "field_sum two_domains ''f'' = (45, 10) \<and> snd (field_sum two_domains ''f'') \<noteq> 0
   \<and> field_avg two_domains ''f'' = Inr (9 / 2)"
proof -
  from field_sum_avg [of two_domains "''f''"]
  have s: "field_sum two_domains ''f'' = (45, 10)"
    by (simp add: two_domains_holders)
  with field_sum_avg [of two_domains "''f''"]
  have "field_avg two_domains ''f'' = Inr (9 / 2)"
    by simp
  with s show ?thesis by simp
qed


lemma histogram_loop_eq:
  assumes "\<forall>nf\<in>set (field_holders dataset field).
             length bins \<le> length (array_histogram (field_values nf) mn mx n)"
  shows "\<exists>bins'. histogram_loop array_histogram dataset field mn mx n bins = Inr bins'
           \<and> length bins' = length bins
           \<and> (\<forall>b<length bins. bins' ! b =
                 bins ! b + (\<Sum>nf\<leftarrow>field_holders dataset field.
                               array_histogram (field_values nf) mn mx n ! b))"
  using assms
proof (induction dataset arbitrary: bins)
  case Nil
  then show ?case by simp
next
  case (Cons dm rest)
  show ?case
  proof (cases "map_of (dom_fields dm) field")
    case None
    with Cons.prems have "\<forall>nf\<in>set (field_holders rest field).
        length bins \<le> length (array_histogram (field_values nf) mn mx n)"
      by (simp add: field_holders_Cons)
    from Cons.IH [OF this] None show ?thesis
      by (simp add: field_holders_Cons)
  next
    case (Some n_field)
    let ?h = "array_histogram (field_values n_field) mn mx n"
    let ?bins = "map2 (+) bins ?h"
    from Cons.prems Some have len: "length bins \<le> length ?h"
      and rest: "\<forall>nf\<in>set (field_holders rest field).
        length bins \<le> length (array_histogram (field_values nf) mn mx n)"
      by (simp_all add: field_holders_Cons)
    from len have l: "length ?bins = length bins" by simp
    from rest l have "\<forall>nf\<in>set (field_holders rest field).
        length ?bins \<le> length (array_histogram (field_values nf) mn mx n)"
      by simp
    from Cons.IH [OF this] obtain bins' where
      r: "histogram_loop array_histogram rest field mn mx n ?bins = Inr bins'"
        "length bins' = length ?bins"
        "\<forall>b<length ?bins. bins' ! b =
            ?bins ! b + (\<Sum>nf\<leftarrow>field_holders rest field.
                           array_histogram (field_values nf) mn mx n ! b)"
      by blast
    have "bins' ! b = bins ! b + (\<Sum>nf\<leftarrow>field_holders (dm # rest) field.
                           array_histogram (field_values nf) mn mx n ! b)"
      if "b < length bins" for b
    proof -
      from that len have "?bins ! b = bins ! b + ?h ! b" by simp
      with r(3) that l show ?thesis
        by (simp add: field_holders_Cons Some)
    qed
    moreover have "histogram_loop array_histogram (dm # rest) field mn mx n bins = Inr bins'"
      using Some len r(1) by (simp add: add_bins_def)
    ultimately show ?thesis using r(2) l by simp
  qed
qed

lemma histogram_loop_frame:
  "field_histogram bld array_histogram dataset field mn mx n = Inr h \<Longrightarrow>
     min_val h = mn \<and> max_val h = mx \<and> num_bins h = n"
  by (cases "histogram_loop array_histogram dataset field mn mx n (replicate (nat n) 0)")
     (auto simp: field_histogram_def split: if_splits)

lemma field_histogram_local_sums:
  assumes "0 \<le> n"
    and "\<forall>nf\<in>set (field_holders dataset field).
           nat n \<le> length (array_histogram (field_values nf) mn mx n)"
  shows "\<exists>bins. histogram_loop array_histogram dataset field mn mx n (replicate (nat n) 0) = Inr bins
      \<and> length bins = nat n
      \<and> (\<forall>b<nat n. bins ! b =
            (\<Sum>nf\<leftarrow>field_holders dataset field. array_histogram (field_values nf) mn mx n ! b))"
proof -
  from assms have "\<forall>nf\<in>set (field_holders dataset field).
      length (replicate (nat n) (0::real)) \<le> length (array_histogram (field_values nf) mn mx n)"
    by simp
  from histogram_loop_eq [where bins = "replicate (nat n) 0" and array_histogram = array_histogram
      and dataset = dataset and field = field and mn = mn and mx = mx and n = n, OF this]
  show ?thesis by auto
qed

text \<open>The serial build does what claim C8 says: whatever \<^verbatim>\<open>field_histogram\<close> returns (in either
  build) carries \<open>min_val\<close>, \<open>max_val\<close> and \<open>num_bins\<close> as they were supplied, and in the serial
  build, when \<open>num_bins\<close> is not negative and the histogram of every domain that holds the
  field has at least \<open>num_bins\<close> bins, bin \<open>b\<close> of the value vector is the sum over the domains
  that hold the field of bin \<open>b\<close> of the domain's histogram.\<close>

lemma field_histogram_serial_sums:
  "(\<forall>h. field_histogram bld array_histogram dataset field mn mx n = Inr h \<longrightarrow>
        min_val h = mn \<and> max_val h = mx \<and> num_bins h = n)
   \<and> (0 \<le> n \<and> (\<forall>nf\<in>set (field_holders dataset field).
                   nat n \<le> length (array_histogram (field_values nf) mn mx n)) \<longrightarrow>
       (\<exists>h. field_histogram Serial array_histogram dataset field mn mx n = Inr h
          \<and> min_val h = mn \<and> max_val h = mx \<and> num_bins h = n
          \<and> length (hist_bins h) = nat n
          \<and> (\<forall>b<nat n. hist_bins h ! b =
                (\<Sum>nf\<leftarrow>field_holders dataset field.
                    array_histogram (field_values nf) mn mx n ! b))))"
proof (rule conjI [OF _ impI])
  show "\<forall>h. field_histogram bld array_histogram dataset field mn mx n = Inr h \<longrightarrow>
        min_val h = mn \<and> max_val h = mx \<and> num_bins h = n"
    using histogram_loop_frame by blast
next
  assume a: "0 \<le> n \<and> (\<forall>nf\<in>set (field_holders dataset field).
                   nat n \<le> length (array_histogram (field_values nf) mn mx n))"
  then have "0 \<le> n" and "\<forall>nf\<in>set (field_holders dataset field).
      nat n \<le> length (array_histogram (field_values nf) mn mx n)"
    by simp_all
  from field_histogram_local_sums [where array_histogram = array_histogram
      and dataset = dataset and field = field and mn = mn and mx = mx and n = n, OF this] obtain bins where
    b: "histogram_loop array_histogram dataset field mn mx n (replicate (nat n) 0) = Inr bins"
      "length bins = nat n"
      "\<forall>b<nat n. bins ! b = (\<Sum>nf\<leftarrow>field_holders dataset field.
                               array_histogram (field_values nf) mn mx n ! b)"
    by blast
  let ?h = "\<lparr>hist_bins = bins, min_val = mn, max_val = mx, num_bins = n\<rparr>"
  from a b(1) have "field_histogram Serial array_histogram dataset field mn mx n = Inr ?h"
    by (simp add: field_histogram_def)
  with b(2,3) show "\<exists>h. field_histogram Serial array_histogram dataset field mn mx n = Inr h
          \<and> min_val h = mn \<and> max_val h = mx \<and> num_bins h = n
          \<and> length (hist_bins h) = nat n
          \<and> (\<forall>b<nat n. hist_bins h ! b =
                (\<Sum>nf\<leftarrow>field_holders dataset field.
                    array_histogram (field_values nf) mn mx n ! b))"
    by (intro exI [of _ ?h]) simp
qed

text \<open>The MPI build on one rank, under the same conditions: only the bins whose two words
  are among the first \<open>num_bins\<close> words are the sums; the upper half of the value vector is
  what the allocation of \<^verbatim>\<open>global_bins\<close> held.\<close>

lemma field_histogram_mpi_bins:
  assumes "0 \<le> n"
    and "\<forall>nf\<in>set (field_holders dataset field).
           nat n \<le> length (array_histogram (field_values nf) mn mx n)"
  shows "\<exists>h. field_histogram (MPI_one_rank fresh mix) array_histogram dataset field mn mx n = Inr h
      \<and> length (hist_bins h) = nat n
      \<and> (\<forall>b<nat n. 2 * b + 1 < nat n \<longrightarrow> hist_bins h ! b =
            (\<Sum>nf\<leftarrow>field_holders dataset field. array_histogram (field_values nf) mn mx n ! b))
      \<and> (\<forall>b<nat n. nat n \<le> 2 * b \<longrightarrow> hist_bins h ! b = fresh b)"
proof -
  from field_histogram_local_sums [where array_histogram = array_histogram
      and dataset = dataset and field = field and mn = mn and mx = mx and n = n, OF assms] obtain bins where
    b: "histogram_loop array_histogram dataset field mn mx n (replicate (nat n) 0) = Inr bins"
      "length bins = nat n"
      "\<forall>b<nat n. bins ! b = (\<Sum>nf\<leftarrow>field_holders dataset field.
                               array_histogram (field_values nf) mn mx n ! b)"
    by blast
  let ?h = "\<lparr>hist_bins = allreduce_int_one_rank fresh mix bins (nat n),
             min_val = mn, max_val = mx, num_bins = n\<rparr>"
  from assms(1) b(1)
  have "field_histogram (MPI_one_rank fresh mix) array_histogram dataset field mn mx n = Inr ?h"
    by (simp add: field_histogram_def)
  with b(2,3) show ?thesis
    by (intro exI [of _ ?h]) (simp add: allreduce_int_one_rank_def)
qed

lemma length_uniform_bins [simp]: "length (uniform_bins xs mn mx n) = nat n"
  by (simp add: uniform_bins_def)

lemma uniform_bins_two_domains:
  "uniform_bins [0, 1, 2, 3, 4, 5, 6, 7, 8] 0 10 2 = [5, 4]"
  "uniform_bins [9] 0 10 2 = [0, 1]"
  by (simp_all add: uniform_bins_def upt_rec)

lemma two_domains_local_bins:
  "histogram_loop uniform_bins two_domains ''f'' 0 10 2 (replicate 2 0) = Inr [5, 5]"
  by (simp add: two_domains_def uniform_domain_def uniform_bins_two_domains add_bins_def
      numeral_2_eq_2)

text \<open>
  Claim C8 says that the value vector of \<^verbatim>\<open>field_histogram\<close> is the element-wise sum of the
  histograms of the domains that hold the field. The source does that in the serial build
  only. On the two-domain dataset of the scenario with \<open>min_val = 0\<close>, \<open>max_val = 10\<close> and
  \<open>num_bins = 2\<close> the two domains have the bins \<open>[5, 4]\<close> and \<open>[0, 1]\<close>, with the sum \<open>[5, 5]\<close>, which
  the serial build returns. The build with \<^verbatim>\<open>ASCENT_MPI_ENABLED\<close>, on one rank, returns
  \<open>[5, fresh 1]\<close>: the reduction is typed \<^verbatim>\<open>MPI_INT\<close> on buffers of doubles, so it fills only the
  first bin of \<^verbatim>\<open>global_bins\<close>, and the second bin is what the allocation held, whatever that
  was. \<open>min_val\<close>, \<open>max_val\<close> and \<open>num_bins\<close> pass through in both builds.
\<close>

theorem field_histogram_mpi_int_reduction:
  "(\<forall>fresh mix.
      field_histogram (MPI_one_rank fresh mix) uniform_bins two_domains ''f'' 0 10 2
        = Inr \<lparr>hist_bins = [5, fresh 1], min_val = 0, max_val = 10, num_bins = 2\<rparr>)
   \<and> field_histogram (MPI_one_rank (\<lambda>b. 0) (\<lambda>x y. y)) uniform_bins two_domains ''f'' 0 10 2
        = Inr \<lparr>hist_bins = [5, 0], min_val = 0, max_val = 10, num_bins = 2\<rparr>
   \<and> field_histogram Serial uniform_bins two_domains ''f'' 0 10 2
        = Inr \<lparr>hist_bins = [5, 5], min_val = 0, max_val = 10, num_bins = 2\<rparr>
   \<and> map (field_values) (field_holders two_domains ''f'') = [[0, 1, 2, 3, 4, 5, 6, 7, 8], [9]]
   \<and> map2 (+) (uniform_bins [0, 1, 2, 3, 4, 5, 6, 7, 8] 0 10 2) (uniform_bins [9] 0 10 2) = [5, 5]"
proof -
  have mpi: "field_histogram (MPI_one_rank fresh mix) uniform_bins two_domains ''f'' 0 10 2
        = Inr \<lparr>hist_bins = [5, fresh 1], min_val = 0, max_val = 10, num_bins = 2\<rparr>"
    for fresh mix
  proof -
    have "allreduce_int_one_rank fresh mix [5, 5] 2 = [5, fresh 1]"
      by (simp add: allreduce_int_one_rank_def upt_rec)
    then show ?thesis
      by (simp add: field_histogram_def two_domains_local_bins)
  qed
  have serial: "field_histogram Serial uniform_bins two_domains ''f'' 0 10 2
        = Inr \<lparr>hist_bins = [5, 5], min_val = 0, max_val = 10, num_bins = 2\<rparr>"
    by (simp add: field_histogram_def two_domains_local_bins)
  from mpi mpi [of "\<lambda>b. 0" "\<lambda>x y. y"] serial show ?thesis
    by (simp add: two_domains_holders uniform_bins_two_domains)
qed

lemma assoc_loop_eq:
  "assoc_loop dataset field_name (vertex, rank_has) =
     (vertex \<and> (\<forall>nf\<in>set (field_holders dataset field_name). association nf \<noteq> ''element''),
      rank_has \<or> field_holders dataset field_name \<noteq> [])"
proof (induction dataset arbitrary: vertex rank_has)
  case Nil
  then show ?case by simp
next
  case (Cons dm rest)
  show ?case
  proof (cases "map_of (dom_fields dm) field_name")
    case None
    then show ?thesis by (simp add: Cons.IH field_holders_Cons)
  next
    case (Some n_field)
    then show ?thesis by (auto simp: Cons.IH field_holders_Cons)
  qed
qed

lemma global_someone_agrees_iff: "global_someone_agrees votes \<longleftrightarrow> (\<exists>vote\<in>set votes. vote)"
  by (simp add: global_someone_agrees_def list_ex_iff)

text \<open>
  Claim C4. Every worker computes whether it holds the field and no domain of its that
  holds the field has the association "element" (for the associations "vertex" and
  "element" of the data model: whether every such domain is vertex-associated). The vertex
  vote is true iff some worker holds the field in that way, the element vote iff some
  worker holds the field with an element-associated domain. \<^verbatim>\<open>field_assoc\<close> raises the error
  iff both votes are true, and otherwise returns "vertex" when the vertex vote is true and
  "element" when not. With one worker the two votes are the local values, never both true:
  the result is the local check and no error is raised.
\<close>

theorem field_assoc_votes:
  "field_assoc fleet field_name =
     (let vertex_vote = (\<exists>dataset\<in>set fleet. field_holders dataset field_name \<noteq> []
              \<and> (\<forall>nf\<in>set (field_holders dataset field_name). association nf \<noteq> ''element''));
          element_vote = (\<exists>dataset\<in>set fleet.
              \<exists>nf\<in>set (field_holders dataset field_name). association nf = ''element'')
      in if vertex_vote \<and> element_vote
         then Inl (AscentError (''There is disagreement about the association of field '' @ field_name))
         else Inr (if vertex_vote then ''vertex'' else ''element''))
   \<and> field_assoc [dataset] field_name =
       Inr (if field_holders dataset field_name \<noteq> []
               \<and> (\<forall>nf\<in>set (field_holders dataset field_name). association nf \<noteq> ''element'')
            then ''vertex'' else ''element'')"
proof -
  let ?vert = "\<lambda>dataset. field_holders dataset field_name \<noteq> []
              \<and> (\<forall>nf\<in>set (field_holders dataset field_name). association nf \<noteq> ''element'')"
  let ?elem = "\<lambda>dataset. \<exists>nf\<in>set (field_holders dataset field_name). association nf = ''element''"
  have lv: "(\<lambda>(vertex, rank_has). rank_has \<and> vertex) (assoc_loop ds field_name (True, False))
      = ?vert ds" for ds
    by (auto simp: assoc_loop_eq)
  have le: "(\<lambda>(vertex, rank_has). rank_has \<and> \<not> vertex) (assoc_loop ds field_name (True, False))
      = ?elem ds" for ds
    by (auto simp: assoc_loop_eq)
  have v: "global_someone_agrees (map (\<lambda>(vertex, rank_has). rank_has \<and> vertex)
             (map (\<lambda>dataset. assoc_loop dataset field_name (True, False)) fl))
           = (\<exists>dataset\<in>set fl. ?vert dataset)" for fl
    by (simp add: global_someone_agrees_iff lv del: split_paired_All)
  have e: "global_someone_agrees (map (\<lambda>(vertex, rank_has). rank_has \<and> \<not> vertex)
             (map (\<lambda>dataset. assoc_loop dataset field_name (True, False)) fl))
           = (\<exists>dataset\<in>set fl. ?elem dataset)" for fl
    by (simp add: global_someone_agrees_iff le del: split_paired_All)
  have general: "field_assoc fl field_name =
     (if (\<exists>dataset\<in>set fl. ?vert dataset) \<and> (\<exists>dataset\<in>set fl. ?elem dataset)
      then Inl (AscentError (''There is disagreement about the association of field '' @ field_name))
      else Inr (if (\<exists>dataset\<in>set fl. ?vert dataset) then ''vertex'' else ''element''))" for fl
    unfolding field_assoc_def Let_def v e by (rule refl)
  have single: "field_assoc [dataset] field_name =
       Inr (if ?vert dataset then ''vertex'' else ''element'')"
    unfolding general by auto
  from general [of fleet] single show ?thesis
    unfolding Let_def by (rule conjI)
qed

lemma worker_holders:
  "field_holders worker_A ''f'' =
     [\<lparr>association = ''vertex'', field_topology = ''mesh'',
        field_values = [0, 1, 2, 3, 4, 5, 6, 7, 8]\<rparr>]"
  "field_holders worker_B ''f'' =
     [\<lparr>association = ''element'', field_topology = ''mesh'', field_values = [4, 1, 2, 3]\<rparr>]"
  by (simp_all add: worker_A_def worker_B_def uniform_domain_def field_holders_Cons)

theorem field_assoc_votes_witness:
  "field_assoc [worker_A, worker_B] ''f''
     = Inl (AscentError ''There is disagreement about the association of field f'')
   \<and> field_assoc [worker_A] ''f'' = Inr ''vertex''
   \<and> field_assoc [worker_B] ''f'' = Inr ''element''
   \<and> field_assoc [worker_A @ worker_B] ''f'' = Inr ''element''"
proof -
  from field_assoc_votes [of "[worker_A, worker_B]" "''f''" worker_A]
  have "field_assoc [worker_A, worker_B] ''f''
     = Inl (AscentError ''There is disagreement about the association of field f'')"
    and "field_assoc [worker_A] ''f'' = Inr ''vertex''"
    by (simp_all add: worker_holders)
  moreover from field_assoc_votes [of "[worker_B]" "''f''" worker_B]
  have "field_assoc [worker_B] ''f'' = Inr ''element''"
    by (simp add: worker_holders)
  moreover have "field_holders (worker_A @ worker_B) ''f''
      = field_holders worker_A ''f'' @ field_holders worker_B ''f''"
    by (simp add: field_holders_def map_filter_def)
  with field_assoc_votes [of "[worker_A @ worker_B]" "''f''" "worker_A @ worker_B"]
  have "field_assoc [worker_A @ worker_B] ''f'' = Inr ''element''"
    by (simp add: worker_holders)
  ultimately show ?thesis by simp
qed

section \<open>Properties of the locations\<close>


lemma tri_indices:
  "get_element_indices (snd (hd (topologies tri_domain))) 0 [] = Inr [0, 0, 0, 0, 1, 2]"
  by (simp add: tri_domain_def get_element_indices_def fetch_opt_def get_num_indices_def
      c_mul_def c_add_def c_int_def in_int_def INT_MIN_def INT_MAX_def resize_def read_at_def
      numeral_3_eq_3)

lemma tri_location: "element_location tri_domain 0 '''' = Inr (2, 1 / 2, 1 / 2)"
  using tri_indices
  by (simp add: element_location_def first_topology_def fetch_def get_explicit_element_def
      get_explicit_vert_def coord_values_def fetch_opt_def read_at_def tri_domain_def)

lemma quad_location: "element_location quad_domain 0 '''' = Inl ConduitError"
  by (simp add: element_location_def first_topology_def fetch_def get_explicit_element_def
      get_element_indices_def fetch_opt_def quad_domain_def
      c_add_def c_int_def in_int_def INT_MIN_def INT_MAX_def)

lemma hex_indices:
  "get_element_indices (snd (hd (topologies hex_domain))) 0 [] = Inr [0, 1, 3, 2, 6, 7, 9, 8]"
  by (simp add: hex_domain_def get_element_indices_def fetch_opt_def hex_corners_def
      c_mul_def c_add_def c_sub_def c_div_def c_mod_def c_int_def in_int_def INT_MIN_def INT_MAX_def)

lemma hex_location: "element_location hex_domain 0 '''' = Inr (3 / 4, 1 / 4, 1 / 2)"
  using hex_indices
  by (simp add: element_location_def first_topology_def fetch_def get_explicit_element_def
      get_explicit_vert_def coord_values_def fetch_opt_def read_at_def hex_domain_def)


text \<open>
  Claim C2 says that \<^verbatim>\<open>element_location\<close> returns the mean of the cell's vertices: the
  shape's vertex count of connectivity entries for an unstructured topology, the 4 or 8
  corners for a structured one. The source does not: on the triangle with the vertices
  \<open>(3, 0, 0)\<close>, \<open>(0, 3, 0)\<close>, \<open>(0, 0, 3)\<close>, whose mean is \<open>(1, 1, 1)\<close>, it returns
  \<open>(2, 1/2, 1/2)\<close> (the index vector holds three zeros from \<^verbatim>\<open>resize\<close> before the three
  connectivity entries pushed after them, and the sum is divided by six); on a structured
  topology without \<^verbatim>\<open>elements/dims/k\<close> it fails; and on cell 0 of the structured 2 x 1 x 1
  mesh, whose corners have the mean \<open>(1/2, 1/2, 1/2)\<close>, it returns \<open>(3/4, 1/4, 1/2)\<close>.
\<close>

theorem element_location_divergence:
  "element_location tri_domain 0 '''' = Inr (2, 1 / 2, 1 / 2)
   \<and> mean3 [(3, 0, 0), (0, 3, 0), (0, 0, 3)] = (1, 1, 1)
   \<and> element_location quad_domain 0 '''' = Inl ConduitError
   \<and> element_location hex_domain 0 '''' = Inr (3 / 4, 1 / 4, 1 / 2)
   \<and> mean3 [(0, 0, 0), (1, 0, 0), (1, 1, 0), (0, 1, 0), (0, 0, 1), (1, 0, 1), (1, 1, 1), (0, 1, 1)]
       = (1 / 2, 1 / 2, 1 / 2)"
  by (simp add: tri_location quad_location hex_location mean3_def)

lemma conn_loop_appends:
  "conn_loop conn_a offset i n indices = Inr r \<Longrightarrow> \<exists>vs. r = indices @ vs \<and> length vs = n"
proof (induction n arbitrary: i indices)
  case 0
  then show ?case by simp
next
  case (Suc n)
  from Suc.prems obtain v where
    "conn_loop conn_a offset (i + 1) n (indices @ [v]) = Inr r"
    by (auto simp: bnd_eq_Inr)
  from Suc.IH [OF this] obtain vs where "r = (indices @ [v]) @ vs" "length vs = n"
    by blast
  then show ?case by (intro exI [of _ "v # vs"]) simp
qed

lemma unstructured_indices_doubled:
  assumes "mesh_type n_topo = ''unstructured''"
    and "get_element_indices n_topo index [] = Inr indices"
  shows "\<exists>num_indices vs. Inr num_indices = bnd (fetch_opt (shape (elements n_topo))) get_num_indices
           \<and> indices = replicate (nat num_indices) 0 @ vs \<and> length vs = nat num_indices"
proof -
  from assms obtain ele_shape num_indices conn_a offset where
    n: "shape (elements n_topo) = Some ele_shape" "get_num_indices ele_shape = Inr num_indices"
    and l: "conn_loop conn_a offset 0 (nat num_indices) (resize (nat num_indices) []) = Inr indices"
    by (auto simp: get_element_indices_def bnd_eq_Inr fetch_opt_def split: option.splits)
  from conn_loop_appends [OF l] obtain vs where
    "indices = resize (nat num_indices) [] @ vs" "length vs = nat num_indices"
    by blast
  with n show ?thesis by (simp add: resize_def fetch_opt_def)
qed

lemma child_Inr: "child xs i = Inr x \<longleftrightarrow> 0 \<le> i \<and> i < int (length xs) \<and> x = xs ! nat i"
  by (auto simp: child_def)

lemma extremum_location_Inr:
  assumes "extremum_location dataset field domain index = Inr loc"
  shows "dataset \<noteq> []
     \<and> (\<exists>nf. map_of (dom_fields (hd dataset)) field = Some nf
          \<and> (association nf = ''vertex'' \<or> association nf = ''element'')
          \<and> 0 \<le> domain \<and> domain < int (length dataset)
          \<and> (if association nf = ''vertex''
              then vert_location (dataset ! nat domain) index ''''
              else element_location (dataset ! nat domain) index '''') = Inr loc)"
proof -
  from assms obtain first nf where
    f: "child dataset 0 = Inr first" "fetch (dom_fields first) field = Inr nf"
    and r: "(if association nf = ''vertex'' then
         bnd (child dataset domain) (\<lambda>dm. vert_location dm index '''')
       else if association nf = ''element'' then
         bnd (child dataset domain) (\<lambda>dm. element_location dm index '''')
       else Inl (AscentError (''Location for '' @ association nf @ '' not implemented''))) = Inr loc"
    by (auto simp: extremum_location_def bnd_eq_Inr)
  from f(1) have ne: "dataset \<noteq> []" and first: "first = hd dataset"
    by (auto simp: child_Inr hd_conv_nth)
  from f(2) first have nf: "map_of (dom_fields (hd dataset)) field = Some nf"
    by (simp add: fetch_def split: option.splits)
  from r have a: "association nf = ''vertex'' \<or> association nf = ''element''"
    by (auto split: if_splits)
  from r a obtain dm where dm: "child dataset domain = Inr dm"
    and l: "(if association nf = ''vertex'' then vert_location dm index ''''
             else element_location dm index '''') = Inr loc"
    by (auto simp: bnd_eq_Inr split: if_splits)
  from dm have "0 \<le> domain" "domain < int (length dataset)" "dm = dataset ! nat domain"
    by (simp_all add: child_Inr)
  with ne nf a l show ?thesis by blast
qed

lemma extremum_location_empty: "extremum_location [] field domain index = Inl InvalidChild"
  by (simp add: extremum_location_def child_def)

lemma extremum_location_missing:
  "dataset \<noteq> [] \<Longrightarrow> map_of (dom_fields (hd dataset)) field = None \<Longrightarrow>
     extremum_location dataset field domain index = Inl ConduitError"
  by (cases dataset) (simp_all add: extremum_location_def child_def fetch_def)

lemma extremum_location_untracked:
  "dataset \<noteq> [] \<Longrightarrow> map_of (dom_fields (hd dataset)) field = Some nf \<Longrightarrow>
   association nf = ''vertex'' \<or> association nf = ''element'' \<Longrightarrow>
     extremum_location dataset field (- 1) index = Inl InvalidChild"
  by (cases dataset) (auto simp: extremum_location_def child_def fetch_def)

lemma no_holders_first:
  "field_holders dataset field = [] \<Longrightarrow>
     dataset = [] \<or> map_of (dom_fields (hd dataset)) field = None"
  by (cases dataset) (auto simp: field_holders_Cons split: option.splits)

lemma min_loop_no_holders:
  "field_holders dataset field = [] \<Longrightarrow> min_loop array_min i dataset field st = st"
proof (induction dataset arbitrary: i)
  case Nil
  then show ?case by simp
next
  case (Cons dm rest)
  then show ?case
    by (cases st) (auto simp: field_holders_Cons split: option.splits)
qed

lemma max_loop_no_holders:
  "field_holders dataset field = [] \<Longrightarrow> max_loop array_max i dataset field st = st"
proof (induction dataset arbitrary: i)
  case Nil
  then show ?case by simp
next
  case (Cons dm rest)
  then show ?case
    by (cases st) (auto simp: field_holders_Cons split: option.splits)
qed


lemma located_by_first_intro:
  assumes "extremum_location dataset field domain index = Inr loc"
  shows "located_by_first dataset field (v, domain, domain_id, index)
           \<lparr>ext_value = v, ext_rank = 0, ext_domain_id = domain_id, ext_position = loc\<rparr>"
proof -
  from extremum_location_Inr [OF assms] obtain nf where
    h: "dataset \<noteq> []" "map_of (dom_fields (hd dataset)) field = Some nf"
      "association nf = ''vertex'' \<or> association nf = ''element''"
      "0 \<le> domain" "domain < int (length dataset)"
      "(if association nf = ''vertex''
        then vert_location (dataset ! nat domain) index ''''
        else element_location (dataset ! nat domain) index '''') = Inr loc"
    by blast
  from h(1) obtain first rest where d: "dataset = first # rest" by (cases dataset) auto
  with h show ?thesis
    unfolding located_by_first_def d by simp
qed

text \<open>
  Claim C10. \<^verbatim>\<open>field_min\<close> and \<^verbatim>\<open>field_max\<close> locate the extremum with the association read from
  the first domain of the dataset: whenever one of them returns, the dataset is not empty,
  its first domain holds the field with association "vertex" or "element", the tracked
  domain index is a child of the dataset, and the position is the vertex location (first
  domain "vertex") or the element location (first domain "element") of the tracked index
  in the tracked domain, whatever the association of the tracked domain. On an empty
  dataset both fail at \<^verbatim>\<open>child(0)\<close>; when the first domain does not hold the field both fail
  at the lookup of the association; when no domain holds the field the tracked domain
  index is still \<open>-1\<close> after the loop and both fail; and when the lookup succeeds with a
  tracked domain index of \<open>-1\<close> both fail at \<^verbatim>\<open>child(-1)\<close>.
\<close>

theorem field_min_max_first_domain:
  "(\<forall>r. field_min array_min dataset field = Inr r \<longrightarrow>
        located_by_first dataset field
          (min_loop array_min 0 dataset field (DBL_MAX, - 1, - 1, - 1)) r
        \<and> field_holders dataset field \<noteq> [])
   \<and> (\<forall>r. field_max array_max dataset field = Inr r \<longrightarrow>
        located_by_first dataset field
          (max_loop array_max 0 dataset field (- DBL_MAX, - 1, - 1, - 1)) r
        \<and> field_holders dataset field \<noteq> [])
   \<and> (dataset = [] \<longrightarrow>
        field_min array_min dataset field = Inl InvalidChild
        \<and> field_max array_max dataset field = Inl InvalidChild)
   \<and> (dataset \<noteq> [] \<and> map_of (dom_fields (hd dataset)) field = None \<longrightarrow>
        field_min array_min dataset field = Inl ConduitError
        \<and> field_max array_max dataset field = Inl ConduitError)
   \<and> (field_holders dataset field = [] \<longrightarrow>
        min_loop array_min 0 dataset field (DBL_MAX, - 1, - 1, - 1) = (DBL_MAX, - 1, - 1, - 1)
        \<and> max_loop array_max 0 dataset field (- DBL_MAX, - 1, - 1, - 1) = (- DBL_MAX, - 1, - 1, - 1)
        \<and> (\<exists>e. field_min array_min dataset field = Inl e)
        \<and> (\<exists>e. field_max array_max dataset field = Inl e))
   \<and> (\<forall>nf. dataset \<noteq> [] \<and> map_of (dom_fields (hd dataset)) field = Some nf
          \<and> (association nf = ''vertex'' \<or> association nf = ''element'') \<longrightarrow>
        (fst (snd (min_loop array_min 0 dataset field (DBL_MAX, - 1, - 1, - 1))) = - 1 \<longrightarrow>
           field_min array_min dataset field = Inl InvalidChild)
        \<and> (fst (snd (max_loop array_max 0 dataset field (- DBL_MAX, - 1, - 1, - 1))) = - 1 \<longrightarrow>
           field_max array_max dataset field = Inl InvalidChild))"
proof -
  let ?mn = "min_loop array_min 0 dataset field (DBL_MAX, - 1, - 1, - 1)"
  let ?mx = "max_loop array_max 0 dataset field (- DBL_MAX, - 1, - 1, - 1)"
  obtain v1 d1 id1 i1 where mn: "?mn = (v1, d1, id1, i1)" by (cases ?mn) auto
  obtain v2 d2 id2 i2 where mx: "?mx = (v2, d2, id2, i2)" by (cases ?mx) auto
  have fmin: "field_min array_min dataset field =
      bnd (extremum_location dataset field d1 i1) (\<lambda>loc.
        Inr \<lparr>ext_value = v1, ext_rank = 0, ext_domain_id = id1, ext_position = loc\<rparr>)"
    by (simp add: field_min_def mn)
  have fmax: "field_max array_max dataset field =
      bnd (extremum_location dataset field d2 i2) (\<lambda>loc.
        Inr \<lparr>ext_value = v2, ext_rank = 0, ext_domain_id = id2, ext_position = loc\<rparr>)"
    by (simp add: field_max_def mx)
  have holders: "field_holders dataset field \<noteq> []"
    if "extremum_location dataset field d i = Inr loc" for d i loc
  proof
    assume "field_holders dataset field = []"
    from no_holders_first [OF this] extremum_location_Inr [OF that] show False by auto
  qed
  have smin: "located_by_first dataset field ?mn r \<and> field_holders dataset field \<noteq> []"
    if "field_min array_min dataset field = Inr r" for r
  proof -
    from that obtain loc where l: "extremum_location dataset field d1 i1 = Inr loc"
      and r: "r = \<lparr>ext_value = v1, ext_rank = 0, ext_domain_id = id1, ext_position = loc\<rparr>"
      unfolding fmin by (auto simp: bnd_eq_Inr)
    from located_by_first_intro [OF l] holders [OF l] r mn show ?thesis by simp
  qed
  have smax: "located_by_first dataset field ?mx r \<and> field_holders dataset field \<noteq> []"
    if "field_max array_max dataset field = Inr r" for r
  proof -
    from that obtain loc where l: "extremum_location dataset field d2 i2 = Inr loc"
      and r: "r = \<lparr>ext_value = v2, ext_rank = 0, ext_domain_id = id2, ext_position = loc\<rparr>"
      unfolding fmax by (auto simp: bnd_eq_Inr)
    from located_by_first_intro [OF l] holders [OF l] r mx show ?thesis by simp
  qed
  have empty: "field_min array_min dataset field = Inl InvalidChild
      \<and> field_max array_max dataset field = Inl InvalidChild" if "dataset = []"
    unfolding fmin fmax using that by (simp add: extremum_location_empty)
  have missing: "field_min array_min dataset field = Inl ConduitError
      \<and> field_max array_max dataset field = Inl ConduitError"
    if "dataset \<noteq> [] \<and> map_of (dom_fields (hd dataset)) field = None"
    unfolding fmin fmax using that by (simp add: extremum_location_missing)
  have none: "?mn = (DBL_MAX, - 1, - 1, - 1) \<and> ?mx = (- DBL_MAX, - 1, - 1, - 1)
      \<and> (\<exists>e. field_min array_min dataset field = Inl e)
      \<and> (\<exists>e. field_max array_max dataset field = Inl e)"
    if h: "field_holders dataset field = []"
  proof -
    from no_holders_first [OF h] empty missing
    have "(\<exists>e. field_min array_min dataset field = Inl e)
      \<and> (\<exists>e. field_max array_max dataset field = Inl e)"
      by blast
    with min_loop_no_holders [OF h] max_loop_no_holders [OF h] show ?thesis by simp
  qed
  have untracked: "(fst (snd ?mn) = - 1 \<longrightarrow> field_min array_min dataset field = Inl InvalidChild)
      \<and> (fst (snd ?mx) = - 1 \<longrightarrow> field_max array_max dataset field = Inl InvalidChild)"
    if "dataset \<noteq> [] \<and> map_of (dom_fields (hd dataset)) field = Some nf
          \<and> (association nf = ''vertex'' \<or> association nf = ''element'')" for nf
  proof -
    from that have a: "dataset \<noteq> []" "map_of (dom_fields (hd dataset)) field = Some nf"
      "association nf = ''vertex'' \<or> association nf = ''element''" by simp_all
    show ?thesis
      unfolding fmin fmax mn mx
      using extremum_location_untracked [OF a] by auto
  qed
  from smin smax empty missing none untracked show ?thesis
    by (intro conjI allI impI) blast+
qed


lemma mixed_min_loop:
  "min_loop first_min 0 mixed_domains ''f'' (DBL_MAX, - 1, - 1, - 1) = (1, 1, 1, 1)"
  by (simp add: mixed_domains_def uniform_domain_def first_min_def DBL_MAX_def)

lemma mixed_max_loop:
  "max_loop first_max 0 mixed_domains ''f'' (- DBL_MAX, - 1, - 1, - 1) = (20, 1, 1, 2)"
  by (simp add: mixed_domains_def uniform_domain_def first_max_def DBL_MAX_def)

lemma mixed_vert_location:
  "vert_location (uniform_domain 1 ''element'' [4, 1, 20, 3]) 1 '''' = Inr (1, 0, 0)"
  "vert_location (uniform_domain 1 ''element'' [4, 1, 20, 3]) 2 '''' = Inr (2, 0, 0)"
  by (simp_all add: uniform_domain_def vert_location_def first_topology_def
      fetch_def uniform_topo_def uniform_3x3_def get_uniform_vert_def uniform_coords_def
      populate_def c_mod_def c_div_def c_int_def in_int_def INT_MIN_def INT_MAX_def
      signed_divide_int_def signed_modulo_int_def)

lemma mixed_element_location:
  "element_location (uniform_domain 1 ''element'' [4, 1, 20, 3]) 1 '''' = Inr (3 / 2, 1 / 2, 1 / 2)"
  "element_location (uniform_domain 1 ''element'' [4, 1, 20, 3]) 2 '''' = Inr (1 / 2, 3 / 2, 1 / 2)"
  by (simp_all add: uniform_domain_def element_location_def first_topology_def
      fetch_def uniform_topo_def uniform_3x3_def get_uniform_element_def uniform_coords_def
      populate_def c_mod_def c_div_def c_sub_def c_int_def in_int_def INT_MIN_def INT_MAX_def
      signed_divide_int_def signed_modulo_int_def)

lemma uniform_domain_fields:
  "dom_fields (uniform_domain domain_id assoc vals)
     = [(''f'', \<lparr>association = assoc, field_topology = ''mesh'', field_values = vals\<rparr>)]"
  by (simp add: uniform_domain_def)

lemma mixed_children:
  "child mixed_domains 0 = Inr (uniform_domain 0 ''vertex'' [5, 6, 7, 8, 9, 10, 11, 12, 13])"
  "child mixed_domains 1 = Inr (uniform_domain 1 ''element'' [4, 1, 20, 3])"
  by (simp_all add: child_def mixed_domains_def)

lemma mixed_field_min:
  "field_min first_min mixed_domains ''f''
     = Inr \<lparr>ext_value = 1, ext_rank = 0, ext_domain_id = 1, ext_position = (1, 0, 0)\<rparr>"
  by (simp add: field_min_def mixed_min_loop extremum_location_def mixed_children fetch_def
      mixed_vert_location uniform_domain_fields)

lemma mixed_field_max:
  "field_max first_max mixed_domains ''f''
     = Inr \<lparr>ext_value = 20, ext_rank = 0, ext_domain_id = 1, ext_position = (2, 0, 0)\<rparr>"
  by (simp add: field_max_def mixed_max_loop extremum_location_def mixed_children fetch_def
      mixed_vert_location uniform_domain_fields)

theorem field_min_max_first_domain_witness:
  "field_min first_min mixed_domains ''f''
     = Inr \<lparr>ext_value = 1, ext_rank = 0, ext_domain_id = 1, ext_position = (1, 0, 0)\<rparr>
   \<and> located_by_first mixed_domains ''f'' (1, 1, 1, 1)
       \<lparr>ext_value = 1, ext_rank = 0, ext_domain_id = 1, ext_position = (1, 0, 0)\<rparr>
   \<and> association (snd (hd (dom_fields (mixed_domains ! 0)))) = ''vertex''
   \<and> association (snd (hd (dom_fields (uniform_domain 1 ''element'' [4, 1, 20, 3])))) = ''element''
   \<and> vert_location (uniform_domain 1 ''element'' [4, 1, 20, 3]) 1 '''' = Inr (1, 0, 0)
   \<and> element_location (uniform_domain 1 ''element'' [4, 1, 20, 3]) 1 '''' = Inr (3 / 2, 1 / 2, 1 / 2)
   \<and> field_max first_max mixed_domains ''f''
       = Inr \<lparr>ext_value = 20, ext_rank = 0, ext_domain_id = 1, ext_position = (2, 0, 0)\<rparr>
   \<and> field_min first_min [] ''f'' = Inl InvalidChild
   \<and> field_max first_max [] ''f'' = Inl InvalidChild
   \<and> field_min first_min [tri_domain, uniform_domain 1 ''vertex'' [9]] ''f'' = Inl ConduitError
   \<and> field_max first_max [tri_domain, uniform_domain 1 ''vertex'' [9]] ''f'' = Inl ConduitError"
proof -
  from field_min_max_first_domain [of first_min mixed_domains "''f''" first_max] mixed_field_min
  have "located_by_first mixed_domains ''f''
          (min_loop first_min 0 mixed_domains ''f'' (DBL_MAX, - 1, - 1, - 1))
          \<lparr>ext_value = 1, ext_rank = 0, ext_domain_id = 1, ext_position = (1, 0, 0)\<rparr>"
    by blast
  then have a: "located_by_first mixed_domains ''f'' (1, 1, 1, 1)
       \<lparr>ext_value = 1, ext_rank = 0, ext_domain_id = 1, ext_position = (1, 0, 0)\<rparr>"
    by (simp only: mixed_min_loop)
  from field_min_max_first_domain [of first_min "[]" "''f''" first_max]
  have b: "field_min first_min [] ''f'' = Inl InvalidChild"
    "field_max first_max [] ''f'' = Inl InvalidChild"
    by blast+
  have "[tri_domain, uniform_domain 1 ''vertex'' [9]] \<noteq> []
      \<and> map_of (dom_fields (hd [tri_domain, uniform_domain 1 ''vertex'' [9]])) ''f'' = None"
    by (simp add: tri_domain_def)
  with field_min_max_first_domain
    [of first_min "[tri_domain, uniform_domain 1 ''vertex'' [9]]" "''f''" first_max]
  have c: "field_min first_min [tri_domain, uniform_domain 1 ''vertex'' [9]] ''f'' = Inl ConduitError"
    "field_max first_max [tri_domain, uniform_domain 1 ''vertex'' [9]] ''f'' = Inl ConduitError"
    by blast+
  have d: "association (snd (hd (dom_fields (mixed_domains ! 0)))) = ''vertex''"
    "association (snd (hd (dom_fields (uniform_domain 1 ''element'' [4, 1, 20, 3])))) = ''element''"
    by (simp_all add: mixed_domains_def uniform_domain_def)
  from a b c d mixed_field_min mixed_field_max mixed_vert_location(1) mixed_element_location(1)
  show ?thesis by simp
qed

end
